theory Spec2Isabelle
  imports Main
begin

section \<open>The city map and the route search of exmapacidade.py\<close>

text \<open>
  The map is a list of rows, each a list of one-character markers. Coordinates are
  Python integers: the neighbour arithmetic of the search produces \<open>-1\<close>, and the
  bounds test of the loop is the only thing that keeps it out of the grid.
\<close>

type_synonym coord = "int \<times> int"
type_synonym rota = "coord list"
type_synonym mapa = "char list list"

datatype py_error = IndexError

subsection \<open>Locating the start and the destination (lines 44 to 59)\<close>

text \<open>
  The two nested \<open>for\<close> loops read \<open>mapa[r][c]\<close> for every \<open>r < linhas\<close> and
  \<open>c < colunas\<close>, where \<open>colunas\<close> is the length of the first row. A row shorter
  than the first one makes the read raise.  Later matches overwrite earlier ones.
\<close>

fun varrer_colunas ::
  "mapa \<Rightarrow> nat \<Rightarrow> nat list \<Rightarrow> coord option \<times> coord option
     \<Rightarrow> py_error + (coord option \<times> coord option)" where
  "varrer_colunas mapa r [] pd = Inr pd"
| "varrer_colunas mapa r (c # cs) (partida, destino) =
     (if c < length (mapa ! r) then
        (if mapa ! r ! c = CHR ''E'' then
           varrer_colunas mapa r cs (Some (int r, int c), destino)
         else if mapa ! r ! c = CHR ''S'' then
           varrer_colunas mapa r cs (partida, Some (int r, int c))
         else varrer_colunas mapa r cs (partida, destino))
      else Inl IndexError)"

fun varrer_linhas ::
  "mapa \<Rightarrow> nat \<Rightarrow> nat list \<Rightarrow> coord option \<times> coord option
     \<Rightarrow> py_error + (coord option \<times> coord option)" where
  "varrer_linhas mapa colunas [] pd = Inr pd"
| "varrer_linhas mapa colunas (r # rs) pd =
     (case varrer_colunas mapa r [0..<colunas] pd of
        Inl e \<Rightarrow> Inl e
      | Inr pd' \<Rightarrow> varrer_linhas mapa colunas rs pd')"

definition localizar :: "mapa \<Rightarrow> py_error + (coord option \<times> coord option)" where
  "localizar mapa =
     (case mapa of
        [] \<Rightarrow> Inl IndexError
      | linha0 # _ \<Rightarrow> varrer_linhas mapa (length linha0) [0..<length mapa] (None, None))"

subsection \<open>The state of the search loop (lines 61 to 74)\<close>

record estado =
  fila :: "(int \<times> int \<times> rota) list"
  visitados :: "coord set"
  rota_ideal :: "rota option"
  todos_segmentos_explorados :: "rota list"
  exploration_snapshots :: "coord set list"
  step_counter :: nat

definition snapshot_interval :: nat where
  "snapshot_interval = 5"

definition direcoes :: "(int \<times> int) list" where
  "direcoes = [(-1, 0), (1, 0), (0, -1), (0, 1)]"

definition estado_inicial :: "coord \<Rightarrow> estado" where
  "estado_inicial partida =
     \<lparr>fila = [(fst partida, snd partida, [partida])],
      visitados = {partida},
      rota_ideal = None,
      todos_segmentos_explorados = [],
      exploration_snapshots = [],
      step_counter = 0\<rparr>"

subsection \<open>One iteration of the loop (lines 76 to 106)\<close>

text \<open>Lines 79 to 84: record the dequeued route, maybe take a snapshot, count the step.\<close>

definition registrar :: "coord \<Rightarrow> coord \<Rightarrow> rota \<Rightarrow> estado \<Rightarrow> estado" where
  "registrar destino atual rota_atual s =
     (let s1 = s\<lparr>todos_segmentos_explorados := todos_segmentos_explorados s @ [rota_atual]\<rparr>;
          s2 = (if step_counter s1 mod snapshot_interval = 0 \<or> atual = destino
                then s1\<lparr>exploration_snapshots := exploration_snapshots s1 @ [visitados s1]\<rparr>
                else s1)
      in s2\<lparr>step_counter := step_counter s2 + 1\<rparr>)"

text \<open>Lines 88 to 90: the destination was dequeued.\<close>

definition chegada :: "rota \<Rightarrow> estado \<Rightarrow> estado" where
  "chegada rota_atual s =
     (let s1 = s\<lparr>rota_ideal := Some rota_atual\<rparr>
      in if visitados s1 \<notin> set (exploration_snapshots s1)
         then s1\<lparr>exploration_snapshots := exploration_snapshots s1 @ [visitados s1]\<rparr>
         else s1)"

text \<open>Lines 95 to 106: the \<open>for\<close> loop over the directions.\<close>

fun expandir ::
  "mapa \<Rightarrow> nat \<Rightarrow> nat \<Rightarrow> int \<Rightarrow> int \<Rightarrow> rota \<Rightarrow> (int \<times> int) list \<Rightarrow> estado \<Rightarrow> estado" where
  "expandir mapa linhas colunas r_atual c_atual rota_atual [] s = s"
| "expandir mapa linhas colunas r_atual c_atual rota_atual ((dr, dc) # ds) s =
     (let r_novo = r_atual + dr; c_novo = c_atual + dc
      in if 0 \<le> r_novo \<and> r_novo < int linhas \<and> 0 \<le> c_novo \<and> c_novo < int colunas \<and>
            mapa ! nat r_novo ! nat c_novo \<noteq> CHR ''#'' \<and>
            (r_novo, c_novo) \<notin> visitados s
         then expandir mapa linhas colunas r_atual c_atual rota_atual ds
                (s\<lparr>visitados := insert (r_novo, c_novo) (visitados s),
                   fila := fila s @ [(r_novo, c_novo, rota_atual @ [(r_novo, c_novo)])]\<rparr>)
         else expandir mapa linhas colunas r_atual c_atual rota_atual ds s)"

text \<open>
  The termination measure: every enqueued cell is a cell of the \<open>linhas \<times> colunas\<close>
  box that was not visited before, and every iteration takes one entry off the queue.
\<close>

definition caixa :: "nat \<Rightarrow> nat \<Rightarrow> coord set" where
  "caixa linhas colunas = {0..<int linhas} \<times> {0..<int colunas}"

definition medida :: "nat \<Rightarrow> nat \<Rightarrow> estado \<Rightarrow> nat" where
  "medida linhas colunas s =
     2 * card (caixa linhas colunas - visitados s) + length (fila s)"

lemma finite_caixa: "finite (caixa linhas colunas)"
  by (simp add: caixa_def)

lemma medida_expandir:
  "medida linhas colunas (expandir mapa linhas colunas r c rota ds s) \<le> medida linhas colunas s"
proof (induction ds arbitrary: s)
  case Nil
  then show ?case by simp
next
  case (Cons d ds)
  obtain dr dc where d: "d = (dr, dc)" by (cases d)
  let ?n = "(r + dr, c + dc)"
  let ?s' = "s\<lparr>visitados := insert ?n (visitados s),
               fila := fila s @ [(r + dr, c + dc, rota @ [?n])]\<rparr>"
  show ?case
  proof (cases "0 \<le> r + dr \<and> r + dr < int linhas \<and> 0 \<le> c + dc \<and> c + dc < int colunas \<and>
            mapa ! nat (r + dr) ! nat (c + dc) \<noteq> CHR ''#'' \<and> ?n \<notin> visitados s")
    case True
    then have mem: "?n \<in> caixa linhas colunas - visitados s"
      by (simp add: caixa_def)
    have fin: "finite (caixa linhas colunas - visitados s)"
      using finite_caixa by blast
    have "caixa linhas colunas - insert ?n (visitados s)
            = (caixa linhas colunas - visitados s) - {?n}"
      by blast
    then have "card (caixa linhas colunas - insert ?n (visitados s))
                 = card (caixa linhas colunas - visitados s) - 1"
      using mem fin by simp
    moreover have "0 < card (caixa linhas colunas - visitados s)"
      using mem fin card_gt_0_iff by blast
    ultimately have "medida linhas colunas ?s' \<le> medida linhas colunas s"
      by (simp add: medida_def)
    moreover have "expandir mapa linhas colunas r c rota (d # ds) s
                     = expandir mapa linhas colunas r c rota ds ?s'"
      using True by (simp add: d Let_def)
    ultimately show ?thesis
      using Cons.IH [of ?s'] by simp
  next
    case False
    then have "expandir mapa linhas colunas r c rota (d # ds) s
                 = expandir mapa linhas colunas r c rota ds s"
      by (auto simp: d Let_def)
    then show ?thesis
      using Cons.IH [of s] by simp
  qed
qed

lemma medida_registrar:
  "medida linhas colunas (registrar destino atual rota s) = medida linhas colunas s"
  by (simp add: medida_def registrar_def Let_def)

function laco :: "mapa \<Rightarrow> nat \<Rightarrow> nat \<Rightarrow> coord \<Rightarrow> estado \<Rightarrow> estado" where
  "laco mapa linhas colunas destino s =
     (case fila s of
        [] \<Rightarrow> s
      | (r_atual, c_atual, rota_atual) # resto \<Rightarrow>
          (let s' = registrar destino (r_atual, c_atual) rota_atual (s\<lparr>fila := resto\<rparr>)
           in if (r_atual, c_atual) = destino then chegada rota_atual s'
              else laco mapa linhas colunas destino
                     (expandir mapa linhas colunas r_atual c_atual rota_atual direcoes s')))"
  by pat_completeness auto
termination
proof (relation "measure (\<lambda>(mapa, linhas, colunas, destino, s). medida linhas colunas s)")
  show "wf (measure (\<lambda>(mapa, linhas, colunas, destino, s). medida linhas colunas s))"
    by simp
next
  fix mapa :: mapa and linhas colunas :: nat and destino :: coord and s :: estado
    and x21 :: "int \<times> int \<times> rota" and resto x1 x2 x1a x2a xa
  assume f: "fila s = x21 # resto"
  let ?s' = "registrar destino (x1, x1a) x2a (s\<lparr>fila := resto\<rparr>)"
  have "medida linhas colunas (expandir mapa linhas colunas x1 x1a x2a direcoes ?s')
          \<le> medida linhas colunas (s\<lparr>fila := resto\<rparr>)"
    using medida_expandir [of linhas colunas mapa x1 x1a x2a direcoes ?s']
    by (simp add: medida_registrar)
  also have "\<dots> < medida linhas colunas s"
    using f by (simp add: medida_def)
  finally show "((mapa, linhas, colunas, destino,
                  expandir mapa linhas colunas x1 x1a x2a direcoes xa), mapa, linhas, colunas, destino, s)
                \<in> measure (\<lambda>(mapa, linhas, colunas, destino, s). medida linhas colunas s)"
    if "xa = ?s'"
    using that by simp
qed

subsection \<open>Filtering the discarded routes and the result (lines 108 to 124)\<close>

text \<open>
  \<open>if rota_ideal:\<close> is Python truthiness: it takes the \<open>else\<close> branch for \<open>None\<close>
  and also for an empty list.
\<close>

definition is_wrong_path_segment :: "coord set \<Rightarrow> rota \<Rightarrow> bool" where
  "is_wrong_path_segment rota_ideal_set path_segment =
     list_ex (\<lambda>point. point \<notin> rota_ideal_set) path_segment"

definition filtrar_descartadas :: "rota option \<Rightarrow> rota list \<Rightarrow> rota list" where
  "filtrar_descartadas ri todos =
     (case ri of
        None \<Rightarrow> filter (\<lambda>path. length path > 1) todos
      | Some ideal \<Rightarrow>
          if ideal \<noteq> [] then
            filter (\<lambda>path_segment.
                      is_wrong_path_segment (set ideal) path_segment \<and> path_segment \<noteq> ideal) todos
          else filter (\<lambda>path. length path > 1) todos)"

definition busca :: "mapa \<Rightarrow> coord \<Rightarrow> coord \<Rightarrow> estado" where
  "busca mapa partida destino =
     laco mapa (length mapa) (length (mapa ! 0)) destino (estado_inicial partida)"

type_synonym resultado = "rota option \<times> rota list \<times> mapa \<times> coord set list"

definition encontrar_melhor_rota :: "mapa \<Rightarrow> py_error + resultado" where
  "encontrar_melhor_rota mapa =
     (case localizar mapa of
        Inl e \<Rightarrow> Inl e
      | Inr (None, _) \<Rightarrow> Inr (None, [], mapa, [])
      | Inr (Some partida, None) \<Rightarrow> Inr (None, [], mapa, [])
      | Inr (Some partida, Some destino) \<Rightarrow>
          (let s = busca mapa partida destino
           in Inr (rota_ideal s,
                   filtrar_descartadas (rota_ideal s) (todos_segmentos_explorados s),
                   mapa,
                   exploration_snapshots s)))"

subsection \<open>The final classification matrix of \<open>plotar_mapa_final\<close> (lines 188 to 214)\<close>

text \<open>
  The function fills \<open>map_matrix\<close> and hands it to the plotting library; the model
  returns the matrix. The matrix holds the floats 0.0 to 5.0, modelled as naturals.
  \<open>final_visited_cells\<close> is a Python set: the list is the order in which the
  \<open>for\<close> loop happens to iterate it. Indexing a numpy array with a negative
  integer counts from the end; an index outside \<open>[-n, n)\<close> raises.
\<close>

type_synonym matriz = "nat list list"

definition atribuir :: "matriz \<Rightarrow> nat \<Rightarrow> nat \<Rightarrow> nat \<Rightarrow> matriz" where
  "atribuir M r c v = M[r := (M ! r)[c := v]]"

fun classificar_colunas :: "mapa \<Rightarrow> nat \<Rightarrow> nat list \<Rightarrow> matriz \<Rightarrow> py_error + matriz" where
  "classificar_colunas mapa r [] M = Inr M"
| "classificar_colunas mapa r (c # cs) M =
     (if c < length (mapa ! r) then
        (if mapa ! r ! c = CHR ''#'' then classificar_colunas mapa r cs (atribuir M r c 1)
         else if mapa ! r ! c = CHR ''E'' then classificar_colunas mapa r cs (atribuir M r c 2)
         else if mapa ! r ! c = CHR ''S'' then classificar_colunas mapa r cs (atribuir M r c 3)
         else classificar_colunas mapa r cs (atribuir M r c 0))
      else Inl IndexError)"

fun classificar_linhas :: "mapa \<Rightarrow> nat \<Rightarrow> nat list \<Rightarrow> matriz \<Rightarrow> py_error + matriz" where
  "classificar_linhas mapa colunas [] M = Inr M"
| "classificar_linhas mapa colunas (r # rs) M =
     (case classificar_colunas mapa r [0..<colunas] M of
        Inl e \<Rightarrow> Inl e
      | Inr M' \<Rightarrow> classificar_linhas mapa colunas rs M')"

definition np_indice :: "nat \<Rightarrow> int \<Rightarrow> py_error + nat" where
  "np_indice n i =
     (if 0 \<le> i \<and> i < int n then Inr (nat i)
      else if - int n \<le> i \<and> i < 0 then Inr (nat (int n + i))
      else Inl IndexError)"

fun pintar_visitadas :: "coord list \<Rightarrow> matriz \<Rightarrow> py_error + matriz" where
  "pintar_visitadas [] M = Inr M"
| "pintar_visitadas ((r, c) # resto) M =
     (case np_indice (length M) r of
        Inl e \<Rightarrow> Inl e
      | Inr i \<Rightarrow>
          (case np_indice (length (M ! i)) c of
             Inl e \<Rightarrow> Inl e
           | Inr j \<Rightarrow>
               if M ! i ! j = 0 then pintar_visitadas resto (atribuir M i j 5)
               else pintar_visitadas resto M))"

fun pintar_rota :: "coord list \<Rightarrow> matriz \<Rightarrow> py_error + matriz" where
  "pintar_rota [] M = Inr M"
| "pintar_rota ((r, c) # resto) M =
     (case np_indice (length M) r of
        Inl e \<Rightarrow> Inl e
      | Inr i \<Rightarrow>
          (case np_indice (length (M ! i)) c of
             Inl e \<Rightarrow> Inl e
           | Inr j \<Rightarrow>
               if M ! i ! j = 0 \<or> M ! i ! j = 5 then pintar_rota resto (atribuir M i j 4)
               else pintar_rota resto M))"

text \<open>
  The parameters default to \<open>None\<close>; \<open>if final_visited_cells:\<close> and
  \<open>if rota_ideal:\<close> skip \<open>None\<close> and the empty collection alike.
  \<open>rotas_descartadas\<close> is accepted and never read. The parameter
  \<open>rota_ideal\<close> is primed here, the plain name being the field of the search state.
\<close>

definition plotar_mapa_final ::
  "mapa \<Rightarrow> rota option \<Rightarrow> rota list option \<Rightarrow> coord list option \<Rightarrow> py_error + matriz" where
  "plotar_mapa_final mapa rota_ideal' rotas_descartadas final_visited_cells =
     (case mapa of
        [] \<Rightarrow> Inl IndexError
      | linha0 # _ \<Rightarrow>
          (let linhas = length mapa; colunas = length linha0;
               map_matrix = replicate linhas (replicate colunas 0)
           in case classificar_linhas mapa colunas [0..<linhas] map_matrix of
                Inl e \<Rightarrow> Inl e
              | Inr M1 \<Rightarrow>
                  (case (case final_visited_cells of
                           None \<Rightarrow> Inr M1
                         | Some cells \<Rightarrow> if cells \<noteq> [] then pintar_visitadas cells M1 else Inr M1) of
                     Inl e \<Rightarrow> Inl e
                   | Inr M2 \<Rightarrow>
                       (case rota_ideal' of
                          None \<Rightarrow> Inr M2
                        | Some rota \<Rightarrow> if rota \<noteq> [] then pintar_rota rota M2 else Inr M2))))"

section \<open>Vocabulary of the properties\<close>

definition dentro :: "nat \<Rightarrow> nat \<Rightarrow> coord \<Rightarrow> bool" where
  "dentro linhas colunas p \<longleftrightarrow>
     0 \<le> fst p \<and> fst p < int linhas \<and> 0 \<le> snd p \<and> snd p < int colunas"

definition marcador :: "mapa \<Rightarrow> coord \<Rightarrow> char" where
  "marcador mapa p = mapa ! nat (fst p) ! nat (snd p)"

definition transitavel :: "mapa \<Rightarrow> nat \<Rightarrow> nat \<Rightarrow> coord \<Rightarrow> bool" where
  "transitavel mapa linhas colunas p \<longleftrightarrow>
     dentro linhas colunas p \<and> marcador mapa p \<noteq> CHR ''#''"

definition adjacente :: "coord \<Rightarrow> coord \<Rightarrow> bool" where
  "adjacente a b \<longleftrightarrow> \<bar>fst a - fst b\<bar> + \<bar>snd a - snd b\<bar> = 1"

text \<open>A path: non-empty, over cells inside the grid that are not \<open>#\<close>, each 4-adjacent to the one before.\<close>

definition caminho :: "mapa \<Rightarrow> nat \<Rightarrow> nat \<Rightarrow> rota \<Rightarrow> bool" where
  "caminho mapa linhas colunas q \<longleftrightarrow>
     q \<noteq> [] \<and> list_all (transitavel mapa linhas colunas) q \<and> successively adjacente q"

definition liga :: "mapa \<Rightarrow> coord \<Rightarrow> coord \<Rightarrow> rota \<Rightarrow> bool" where
  "liga mapa a b q \<longleftrightarrow>
     caminho mapa (length mapa) (length (mapa ! 0)) q \<and> hd q = a \<and> last q = b"

text \<open>The unweighted distance: the least number of edges of a path from \<open>a\<close> to \<open>b\<close>.\<close>

definition distancia :: "mapa \<Rightarrow> coord \<Rightarrow> coord \<Rightarrow> nat" where
  "distancia mapa a b = (LEAST n. \<exists>q. liga mapa a b q \<and> length q = Suc n)"

definition grade_retangular :: "mapa \<Rightarrow> bool" where
  "grade_retangular mapa \<longleftrightarrow>
     mapa \<noteq> [] \<and> list_all (\<lambda>linha. length linha = length (mapa ! 0)) mapa"

text \<open>The occurrence of a marker that comes last when the grid is read row by row.\<close>

definition ultima_ocorrencia :: "mapa \<Rightarrow> char \<Rightarrow> coord \<Rightarrow> bool" where
  "ultima_ocorrencia mapa ch p \<longleftrightarrow>
     dentro (length mapa) (length (mapa ! 0)) p \<and> marcador mapa p = ch \<and>
     list_all (\<lambda>r. list_all (\<lambda>c. mapa ! r ! c = ch \<longrightarrow>
                                   int r < fst p \<or> (int r = fst p \<and> int c \<le> snd p))
                              [0..<length (mapa ! 0)])
              [0..<length mapa]"

definition contem :: "mapa \<Rightarrow> char \<Rightarrow> bool" where
  "contem mapa ch \<longleftrightarrow> list_ex (\<lambda>linha. ch \<in> set linha) mapa"

subsection \<open>Sample grids\<close>

definition grade_exemplo :: mapa where
  "grade_exemplo =
     [[CHR ''E'', CHR '' '', CHR ''#''],
      [CHR '' '', CHR ''#'', CHR '' ''],
      [CHR '' '', CHR '' '', CHR ''S'']]"

definition grade_anel :: mapa where
  "grade_anel =
     [[CHR '' '', CHR ''E'', CHR '' ''],
      [CHR '' '', CHR ''#'', CHR '' ''],
      [CHR '' '', CHR ''S'', CHR '' '']]"

subsection \<open>More sample grids\<close>

text \<open>
  One with a marker outside the documented four, one without a destination, one with two
  of each marker, one with two starts and no destination.
\<close>

definition grade_marcas :: mapa where
  "grade_marcas =
     [[CHR ''E'', CHR ''X''],
      [CHR ''S'', CHR ''#'']]"

definition grade_sem_destino :: mapa where
  "grade_sem_destino =
     [[CHR ''E'', CHR '' ''],
      [CHR ''#'', CHR '' '']]"

definition grade_duplas :: mapa where
  "grade_duplas =
     [[CHR ''E'', CHR ''E'', CHR '' ''],
      [CHR ''S'', CHR '' '', CHR ''S'']]"

definition grade_duas_partidas :: mapa where
  "grade_duas_partidas = [[CHR ''E'', CHR ''E'', CHR '' '']]"

subsection \<open>The run as a whole\<close>

text \<open>
  The routes dequeued by the run that \<open>encontrar_melhor_rota\<close> performs, and their
  number; neither is part of the returned tuple.
\<close>

definition segmentos_explorados :: "mapa \<Rightarrow> rota list" where
  "segmentos_explorados mapa =
     (case localizar mapa of
        Inr (Some partida, Some destino) \<Rightarrow> todos_segmentos_explorados (busca mapa partida destino)
      | _ \<Rightarrow> [])"

definition total_dequeues :: "mapa \<Rightarrow> nat" where
  "total_dequeues mapa =
     (case localizar mapa of
        Inr (Some partida, Some destino) \<Rightarrow> step_counter (busca mapa partida destino)
      | _ \<Rightarrow> 0)"

subsection \<open>Auxiliary notions for the scan and the expansion\<close>

text \<open>
  The neighbour in a direction, the queue entry made for a neighbour, and one cell of
  the scan as a function on the pair found so far.
\<close>

definition alvo :: "int \<Rightarrow> int \<Rightarrow> int \<times> int \<Rightarrow> coord" where
  "alvo r c d = (r + fst d, c + snd d)"

definition entrada :: "rota \<Rightarrow> coord \<Rightarrow> int \<times> int \<times> rota" where
  "entrada rota n = (fst n, snd n, rota @ [n])"

definition marca :: "mapa \<Rightarrow> nat \<Rightarrow> nat \<Rightarrow> coord option \<times> coord option \<Rightarrow> coord option \<times> coord option" where
  "marca mapa r c pd =
     (if mapa ! r ! c = CHR ''E'' then (Some (int r, int c), snd pd)
      else if mapa ! r ! c = CHR ''S'' then (fst pd, Some (int r, int c))
      else pd)"

definition marcas_ok :: "mapa \<Rightarrow> nat \<Rightarrow> nat \<Rightarrow> coord option \<times> coord option \<Rightarrow> bool" where
  "marcas_ok mapa linhas colunas pd \<longleftrightarrow>
     (\<forall>p. fst pd = Some p \<longrightarrow> dentro linhas colunas p \<and> marcador mapa p = CHR ''E'') \<and>
     (\<forall>d. snd pd = Some d \<longrightarrow> dentro linhas colunas d \<and> marcador mapa d = CHR ''S'')"

subsection \<open>Invariants of the loop\<close>

text \<open>The snapshots: what holds before each iteration, and what holds of the final state.\<close>

definition inv_instantaneos :: "estado \<Rightarrow> bool" where
  "inv_instantaneos s \<longleftrightarrow>
     length (exploration_snapshots s) = (step_counter s + 4) div 5 \<and>
     (\<forall>A \<in> set (exploration_snapshots s). A \<subseteq> visitados s) \<and>
     sorted_wrt (\<subseteq>) (exploration_snapshots s) \<and>
     step_counter s = length (todos_segmentos_explorados s) \<and>
     rota_ideal s = None"

definition pos_instantaneos :: "estado \<Rightarrow> bool" where
  "pos_instantaneos s \<longleftrightarrow>
     step_counter s = length (todos_segmentos_explorados s) \<and>
     length (exploration_snapshots s)
       = (step_counter s + 4) div 5
         + (if rota_ideal s \<noteq> None \<and> (step_counter s - 1) mod 5 \<noteq> 0 then 1 else 0) \<and>
     sorted_wrt (\<subseteq>) (exploration_snapshots s)"

text \<open>The first route recorded is the start alone.\<close>

definition inv_primeiro :: "coord \<Rightarrow> estado \<Rightarrow> bool" where
  "inv_primeiro partida s \<longleftrightarrow>
     (todos_segmentos_explorados s = [] \<and> fila s = [(fst partida, snd partida, [partida])]) \<or>
     (todos_segmentos_explorados s \<noteq> [] \<and> hd (todos_segmentos_explorados s) = [partida])"

definition pos_primeiro :: "coord \<Rightarrow> estado \<Rightarrow> bool" where
  "pos_primeiro partida s \<longleftrightarrow>
     todos_segmentos_explorados s \<noteq> [] \<and> hd (todos_segmentos_explorados s) = [partida]"

text \<open>What the loop keeps true of every queued route, and what it delivers.\<close>

definition rota_boa :: "mapa \<Rightarrow> nat \<Rightarrow> nat \<Rightarrow> coord \<Rightarrow> coord set \<Rightarrow> int \<times> int \<times> rota \<Rightarrow> bool" where
  "rota_boa mapa linhas colunas partida V e \<longleftrightarrow>
     caminho mapa linhas colunas (snd (snd e)) \<and> hd (snd (snd e)) = partida \<and>
     last (snd (snd e)) = (fst e, fst (snd e)) \<and> distinct (snd (snd e)) \<and> set (snd (snd e)) \<subseteq> V"

definition inv_rotas :: "mapa \<Rightarrow> nat \<Rightarrow> nat \<Rightarrow> coord \<Rightarrow> estado \<Rightarrow> bool" where
  "inv_rotas mapa linhas colunas partida s \<longleftrightarrow>
     rota_ideal s = None \<and>
     (\<forall>e \<in> set (fila s). rota_boa mapa linhas colunas partida (visitados s) e)"

definition pos_rotas :: "mapa \<Rightarrow> nat \<Rightarrow> nat \<Rightarrow> coord \<Rightarrow> coord \<Rightarrow> estado \<Rightarrow> bool" where
  "pos_rotas mapa linhas colunas partida destino s \<longleftrightarrow>
     (\<forall>p. rota_ideal s = Some p \<longrightarrow>
        caminho mapa linhas colunas p \<and> hd p = partida \<and> last p = destino \<and> distinct p)"

text \<open>
  The breadth-first invariant. \<open>niveis\<close> relates an earlier queue entry to a later
  one: the later route is as long or one cell longer. \<open>cobre s q\<close> says where the
  search stands with respect to a path \<open>q\<close> from the start: its end is queued with a
  route no longer than \<open>q\<close>, or a shorter route is still queued, or its end has been
  expanded. \<open>fechado\<close>: every expanded cell has all its passable neighbours visited.
\<close>

definition celula :: "int \<times> int \<times> rota \<Rightarrow> coord" where
  "celula e = (fst e, fst (snd e))"

definition rota_de :: "int \<times> int \<times> rota \<Rightarrow> rota" where
  "rota_de e = snd (snd e)"

definition niveis :: "int \<times> int \<times> rota \<Rightarrow> int \<times> int \<times> rota \<Rightarrow> bool" where
  "niveis a b \<longleftrightarrow>
     length (rota_de a) \<le> length (rota_de b) \<and> length (rota_de b) \<le> Suc (length (rota_de a))"

definition cobre :: "estado \<Rightarrow> rota \<Rightarrow> bool" where
  "cobre s q \<longleftrightarrow>
     (\<exists>e \<in> set (fila s). celula e = last q \<and> length (rota_de e) \<le> length q) \<or>
     (\<exists>e \<in> set (fila s). length (rota_de e) < length q) \<or>
     (last q \<in> visitados s \<and> last q \<notin> celula ` set (fila s))"

definition fechado :: "mapa \<Rightarrow> nat \<Rightarrow> nat \<Rightarrow> estado \<Rightarrow> bool" where
  "fechado mapa linhas colunas s \<longleftrightarrow>
     (\<forall>v \<in> visitados s. v \<notin> celula ` set (fila s) \<longrightarrow>
        (\<forall>w. adjacente v w \<and> transitavel mapa linhas colunas w \<longrightarrow> w \<in> visitados s))"

definition inv_bfs :: "mapa \<Rightarrow> nat \<Rightarrow> nat \<Rightarrow> coord \<Rightarrow> coord \<Rightarrow> estado \<Rightarrow> bool" where
  "inv_bfs mapa linhas colunas partida destino s \<longleftrightarrow>
     inv_rotas mapa linhas colunas partida s \<and>
     sorted_wrt niveis (fila s) \<and>
     distinct (map celula (fila s)) \<and>
     fechado mapa linhas colunas s \<and>
     (destino \<in> visitados s \<longrightarrow> destino \<in> celula ` set (fila s)) \<and>
     (\<forall>q. caminho mapa linhas colunas q \<and> hd q = partida \<longrightarrow> cobre s q)"

definition pos_bfs :: "mapa \<Rightarrow> nat \<Rightarrow> nat \<Rightarrow> coord \<Rightarrow> coord \<Rightarrow> estado \<Rightarrow> bool" where
  "pos_bfs mapa linhas colunas partida destino s \<longleftrightarrow>
     (\<forall>q. caminho mapa linhas colunas q \<and> hd q = partida \<and> last q = destino \<longrightarrow>
        (\<exists>p. rota_ideal s = Some p \<and> length p \<le> length q))"

subsection \<open>Notions for the final matrix\<close>

text \<open>
  The class the first pass gives a marker, the class a cell ends with, the cells of an
  optional collection, and the shape of a matrix.
\<close>

definition classe_base :: "char \<Rightarrow> nat" where
  "classe_base ch =
     (if ch = CHR ''#'' then 1 else if ch = CHR ''E'' then 2 else if ch = CHR ''S'' then 3 else 0)"

definition classe_final :: "mapa \<Rightarrow> coord set \<Rightarrow> coord set \<Rightarrow> nat \<Rightarrow> nat \<Rightarrow> nat" where
  "classe_final mapa na_rota visitadas i j =
     (if mapa ! i ! j = CHR ''#'' then 1
      else if mapa ! i ! j = CHR ''E'' then 2
      else if mapa ! i ! j = CHR ''S'' then 3
      else if (int i, int j) \<in> na_rota then 4
      else if (int i, int j) \<in> visitadas then 5
      else 0)"

definition celulas_de :: "coord list option \<Rightarrow> coord list" where
  "celulas_de x = (case x of None \<Rightarrow> [] | Some xs \<Rightarrow> xs)"

definition forma :: "nat \<Rightarrow> nat \<Rightarrow> matriz \<Rightarrow> bool" where
  "forma linhas colunas M \<longleftrightarrow> length M = linhas \<and> (\<forall>i < linhas. length (M ! i) = colunas)"

section \<open>The expansion step and the loop rule\<close>

lemma expandir_Cons:
  "expandir mapa linhas colunas r c rota (d # ds) s =
     (if transitavel mapa linhas colunas (alvo r c d) \<and> alvo r c d \<notin> visitados s
      then expandir mapa linhas colunas r c rota ds
             (s\<lparr>visitados := insert (alvo r c d) (visitados s),
                fila := fila s @ [entrada rota (alvo r c d)]\<rparr>)
      else expandir mapa linhas colunas r c rota ds s)"
  by (cases d) (simp add: Let_def alvo_def entrada_def transitavel_def dentro_def marcador_def)

lemma expandir_campos:
  "rota_ideal (expandir mapa linhas colunas r c rota ds s) = rota_ideal s"
  "todos_segmentos_explorados (expandir mapa linhas colunas r c rota ds s)
     = todos_segmentos_explorados s"
  "exploration_snapshots (expandir mapa linhas colunas r c rota ds s) = exploration_snapshots s"
  "step_counter (expandir mapa linhas colunas r c rota ds s) = step_counter s"
  by (induction ds arbitrary: s; simp add: expandir_Cons)+

lemma expandir_geral:
  "\<exists>ns. fila (expandir mapa linhas colunas r c rota ds s) = fila s @ map (entrada rota) ns
      \<and> distinct ns
      \<and> set ns = {n \<in> alvo r c ` set ds. transitavel mapa linhas colunas n} - visitados s
      \<and> visitados (expandir mapa linhas colunas r c rota ds s) = visitados s \<union> set ns"
proof (induction ds arbitrary: s)
  case Nil
  show ?case by (rule exI [of _ "[]"]) simp
next
  case (Cons d ds)
  let ?n = "alvo r c d"
  let ?T = "\<lambda>xs. {n \<in> alvo r c ` set xs. transitavel mapa linhas colunas n}"
  show ?case
  proof (cases "transitavel mapa linhas colunas ?n \<and> ?n \<notin> visitados s")
    case True
    let ?s1 = "s\<lparr>visitados := insert ?n (visitados s), fila := fila s @ [entrada rota ?n]\<rparr>"
    let ?s' = "expandir mapa linhas colunas r c rota ds ?s1"
    have eq: "expandir mapa linhas colunas r c rota (d # ds) s = ?s'"
      using True by (subst expandir_Cons) simp
    from Cons.IH [of ?s1] obtain ns where
      f: "fila ?s' = fila ?s1 @ map (entrada rota) ns" and
      d: "distinct ns" and
      n: "set ns = ?T ds - visitados ?s1" and
      v: "visitados ?s' = visitados ?s1 \<union> set ns"
      by blast
    have n': "set ns = ?T ds - insert ?n (visitados s)" using n by simp
    have 1: "fila ?s' = fila s @ map (entrada rota) (?n # ns)" using f by simp
    have 2: "distinct (?n # ns)" using d n' by simp
    have 3: "set (?n # ns) = ?T (d # ds) - visitados s"
      using n' True by auto
    have 4: "visitados ?s' = visitados s \<union> set (?n # ns)" using v by simp
    show ?thesis
      unfolding eq using 1 2 3 4 by blast
  next
    case False
    have eq: "expandir mapa linhas colunas r c rota (d # ds) s
                = expandir mapa linhas colunas r c rota ds s"
      using False by (subst expandir_Cons) auto
    from Cons.IH [of s] obtain ns where
      f: "fila (expandir mapa linhas colunas r c rota ds s) = fila s @ map (entrada rota) ns" and
      d: "distinct ns" and
      n: "set ns = ?T ds - visitados s" and
      v: "visitados (expandir mapa linhas colunas r c rota ds s) = visitados s \<union> set ns"
      by blast
    have 3: "set ns = ?T (d # ds) - visitados s"
      using n False by auto
    show ?thesis
      unfolding eq using f d 3 v by blast
  qed
qed

lemma registrar_campos:
  "fila (registrar destino a rota s) = fila s"
  "visitados (registrar destino a rota s) = visitados s"
  "rota_ideal (registrar destino a rota s) = rota_ideal s"
  "todos_segmentos_explorados (registrar destino a rota s)
     = todos_segmentos_explorados s @ [rota]"
  "step_counter (registrar destino a rota s) = Suc (step_counter s)"
  "exploration_snapshots (registrar destino a rota s)
     = (if step_counter s mod 5 = 0 \<or> a = destino
        then exploration_snapshots s @ [visitados s] else exploration_snapshots s)"
  by (simp_all add: registrar_def Let_def snapshot_interval_def)

lemma chegada_campos:
  "fila (chegada rota s) = fila s"
  "visitados (chegada rota s) = visitados s"
  "rota_ideal (chegada rota s) = Some rota"
  "todos_segmentos_explorados (chegada rota s) = todos_segmentos_explorados s"
  "step_counter (chegada rota s) = step_counter s"
  "exploration_snapshots (chegada rota s)
     = (if visitados s \<notin> set (exploration_snapshots s)
        then exploration_snapshots s @ [visitados s] else exploration_snapshots s)"
  by (simp_all add: chegada_def Let_def)

lemma expandir_visitados_mono:
  "visitados s \<subseteq> visitados (expandir mapa linhas colunas r c rota ds s)"
  using expandir_geral [of mapa linhas colunas r c rota ds s] by auto

lemma adjacente_direcoes: "adjacente (r, c) n \<longleftrightarrow> n \<in> alvo r c ` set direcoes"
proof -
  obtain r' c' where n: "n = (r', c')" by (cases n)
  have "adjacente (r, c) (r', c') \<longleftrightarrow>
          (r', c') = (r - 1, c) \<or> (r', c') = (r + 1, c) \<or> (r', c') = (r, c - 1) \<or> (r', c') = (r, c + 1)"
    by (auto simp: adjacente_def)
  then show ?thesis
    by (auto simp: n direcoes_def alvo_def)
qed

lemma laco_regra:
  assumes inv: "I s"
    and passo: "\<And>s r c rota resto.
        I s \<Longrightarrow> fila s = (r, c, rota) # resto \<Longrightarrow> (r, c) \<noteq> destino \<Longrightarrow>
        I (expandir mapa linhas colunas r c rota direcoes
             (registrar destino (r, c) rota (s\<lparr>fila := resto\<rparr>)))"
    and vazia: "\<And>s. I s \<Longrightarrow> fila s = [] \<Longrightarrow> P s"
    and achou: "\<And>s r c rota resto.
        I s \<Longrightarrow> fila s = (r, c, rota) # resto \<Longrightarrow> (r, c) = destino \<Longrightarrow>
        P (chegada rota (registrar destino (r, c) rota (s\<lparr>fila := resto\<rparr>)))"
  shows "P (laco mapa linhas colunas destino s)"
  using inv passo vazia achou
proof (induction mapa linhas colunas destino s rule: laco.induct)
  case (1 mapa linhas colunas destino s)
  note inv = "1.prems"(1) and passo = "1.prems"(2) and vazia = "1.prems"(3)
    and achou = "1.prems"(4)
  show ?case
  proof (cases "fila s")
    case Nil
    then have "laco mapa linhas colunas destino s = s"
      by (subst laco.simps) simp
    then show ?thesis
      using vazia [OF inv Nil] by simp
  next
    case (Cons e resto)
    obtain r c rota where e: "e = (r, c, rota)" by (cases e)
    have f: "fila s = (r, c, rota) # resto"
      using Cons e by simp
    show ?thesis
    proof (cases "(r, c) = destino")
      case True
      have "laco mapa linhas colunas destino s
              = chegada rota (registrar destino (r, c) rota (s\<lparr>fila := resto\<rparr>))"
        using f True by (subst laco.simps) (simp add: Let_def)
      then show ?thesis
        using achou [OF inv f True] by simp
    next
      case False
      let ?s' = "expandir mapa linhas colunas r c rota direcoes
                   (registrar destino (r, c) rota (s\<lparr>fila := resto\<rparr>))"
      have "I ?s'"
        by (rule passo [OF inv f False])
      then have "P (laco mapa linhas colunas destino ?s')"
        using "1.IH" [OF Cons e [symmetric] refl refl False] passo vazia achou
        by blast
      moreover have "laco mapa linhas colunas destino s = laco mapa linhas colunas destino ?s'"
        using f False by (subst laco.simps) (simp add: Let_def)
      ultimately show ?thesis by simp
    qed
  qed
qed

section \<open>The scan for the two markers\<close>

lemma varrer_colunas_fold:
  "\<forall>c \<in> set cs. c < length (mapa ! r) \<Longrightarrow>
   varrer_colunas mapa r cs pd = Inr (fold (marca mapa r) cs pd)"
proof (induction cs arbitrary: pd)
  case Nil
  show ?case by simp
next
  case (Cons c cs)
  obtain p d where pd: "pd = (p, d)" by (cases pd)
  have c: "c < length (mapa ! r)" and cs: "\<forall>c \<in> set cs. c < length (mapa ! r)"
    using Cons.prems by simp_all
  show ?case
    unfolding pd using c Cons.IH [OF cs] by (simp add: marca_def)
qed

lemma varrer_linhas_fold:
  "\<forall>r \<in> set rs. colunas \<le> length (mapa ! r) \<Longrightarrow>
   varrer_linhas mapa colunas rs pd
     = Inr (fold (\<lambda>r. fold (marca mapa r) [0..<colunas]) rs pd)"
  by (induction rs arbitrary: pd) (auto simp: varrer_colunas_fold)

lemma localizar_naovazia:
  "mapa \<noteq> [] \<Longrightarrow>
   localizar mapa = varrer_linhas mapa (length (mapa ! 0)) [0..<length mapa] (None, None)"
  by (cases mapa) (simp_all add: localizar_def del: upt_Suc)

lemma grade_retangular_naovazia: "grade_retangular mapa \<Longrightarrow> mapa \<noteq> []"
  unfolding grade_retangular_def by blast

lemma grade_retangular_linhas:
  assumes "grade_retangular mapa" "r < length mapa"
  shows "length (mapa ! r) = length (mapa ! 0)"
proof -
  have "\<forall>n < length mapa. length (mapa ! n) = length (mapa ! 0)"
    using assms(1) unfolding grade_retangular_def list_all_length by blast
  then show ?thesis
    using assms(2) by blast
qed

lemma localizar_fold:
  assumes "grade_retangular mapa"
  shows "localizar mapa
           = Inr (fold (\<lambda>r. fold (marca mapa r) [0..<length (mapa ! 0)]) [0..<length mapa] (None, None))"
proof -
  have "\<forall>r \<in> set [0..<length mapa]. length (mapa ! 0) \<le> length (mapa ! r)"
    using grade_retangular_linhas [OF assms] by (metis atLeastLessThan_iff order_refl set_upt)
  then have "varrer_linhas mapa (length (mapa ! 0)) [0..<length mapa] (None, None)
      = Inr (fold (\<lambda>r. fold (marca mapa r) [0..<length (mapa ! 0)]) [0..<length mapa] (None, None))"
    by (rule varrer_linhas_fold)
  then show ?thesis
    using localizar_naovazia [OF grade_retangular_naovazia [OF assms]] by metis
qed

text \<open>Cells without the marker leave the component alone.\<close>

lemma fold_colunas_sem_E:
  "\<forall>c \<in> set cs. mapa ! r ! c \<noteq> CHR ''E'' \<Longrightarrow> fst (fold (marca mapa r) cs pd) = fst pd"
  by (induction cs arbitrary: pd) (auto simp: marca_def)

lemma fold_colunas_sem_S:
  "\<forall>c \<in> set cs. mapa ! r ! c \<noteq> CHR ''S'' \<Longrightarrow> snd (fold (marca mapa r) cs pd) = snd pd"
  by (induction cs arbitrary: pd) (auto simp: marca_def)

lemma fold_linhas_sem_E:
  "\<forall>r \<in> set rs. \<forall>c \<in> set cs. mapa ! r ! c \<noteq> CHR ''E'' \<Longrightarrow>
   fst (fold (\<lambda>r. fold (marca mapa r) cs) rs pd) = fst pd"
  by (induction rs arbitrary: pd) (auto simp: fold_colunas_sem_E)

lemma fold_linhas_sem_S:
  "\<forall>r \<in> set rs. \<forall>c \<in> set cs. mapa ! r ! c \<noteq> CHR ''S'' \<Longrightarrow>
   snd (fold (\<lambda>r. fold (marca mapa r) cs) rs pd) = snd pd"
  by (induction rs arbitrary: pd) (auto simp: fold_colunas_sem_S)

lemma upt_parte:
  assumes "k < n"
  shows "[0..<n] = [0..<k] @ k # [Suc k..<n]"
proof -
  have "[0..<k + (n - k)] = [0..<k] @ [k..<k + (n - k)]"
    by (rule upt_add_eq_append) simp
  then have "[0..<n] = [0..<k] @ [k..<n]"
    using assms by simp
  then show ?thesis
    using assms by (simp add: upt_conv_Cons)
qed

lemma fold_colunas_ultimo_E:
  assumes "c0 < n" "mapa ! r ! c0 = CHR ''E''" "\<forall>c < n. mapa ! r ! c = CHR ''E'' \<longrightarrow> c \<le> c0"
  shows "fst (fold (marca mapa r) [0..<n] pd) = Some (int r, int c0)"
proof -
  have "\<forall>c \<in> set [Suc c0..<n]. mapa ! r ! c \<noteq> CHR ''E''"
    using assms(3) by fastforce
  then show ?thesis
    using assms(2) by (simp add: upt_parte [OF assms(1)] fold_colunas_sem_E marca_def)
qed

lemma fold_colunas_ultimo_S:
  assumes "c0 < n" "mapa ! r ! c0 = CHR ''S''" "\<forall>c < n. mapa ! r ! c = CHR ''S'' \<longrightarrow> c \<le> c0"
  shows "snd (fold (marca mapa r) [0..<n] pd) = Some (int r, int c0)"
proof -
  have "\<forall>c \<in> set [Suc c0..<n]. mapa ! r ! c \<noteq> CHR ''S''"
    using assms(3) by fastforce
  then show ?thesis
    using assms(2) by (simp add: upt_parte [OF assms(1)] fold_colunas_sem_S marca_def)
qed

lemma fold_linhas_ultimo_E:
  assumes "r0 < m" "c0 < n" "mapa ! r0 ! c0 = CHR ''E''"
    and "\<forall>r < m. \<forall>c < n. mapa ! r ! c = CHR ''E'' \<longrightarrow> r < r0 \<or> (r = r0 \<and> c \<le> c0)"
  shows "fst (fold (\<lambda>r. fold (marca mapa r) [0..<n]) [0..<m] pd) = Some (int r0, int c0)"
proof -
  have depois: "\<forall>r \<in> set [Suc r0..<m]. \<forall>c \<in> set [0..<n]. mapa ! r ! c \<noteq> CHR ''E''"
    using assms(4) by fastforce
  have "\<forall>c < n. mapa ! r0 ! c = CHR ''E'' \<longrightarrow> c \<le> c0"
    using assms(1,4) by fastforce
  then show ?thesis
    using assms(2,3) depois
    by (simp add: upt_parte [OF assms(1)] fold_linhas_sem_E fold_colunas_ultimo_E)
qed

lemma fold_linhas_ultimo_S:
  assumes "r0 < m" "c0 < n" "mapa ! r0 ! c0 = CHR ''S''"
    and "\<forall>r < m. \<forall>c < n. mapa ! r ! c = CHR ''S'' \<longrightarrow> r < r0 \<or> (r = r0 \<and> c \<le> c0)"
  shows "snd (fold (\<lambda>r. fold (marca mapa r) [0..<n]) [0..<m] pd) = Some (int r0, int c0)"
proof -
  have depois: "\<forall>r \<in> set [Suc r0..<m]. \<forall>c \<in> set [0..<n]. mapa ! r ! c \<noteq> CHR ''S''"
    using assms(4) by fastforce
  have "\<forall>c < n. mapa ! r0 ! c = CHR ''S'' \<longrightarrow> c \<le> c0"
    using assms(1,4) by fastforce
  then show ?thesis
    using assms(2,3) depois
    by (simp add: upt_parte [OF assms(1)] fold_linhas_sem_S fold_colunas_ultimo_S)
qed

lemma ultima_ocorrencia_nat:
  assumes "ultima_ocorrencia mapa ch p"
  obtains r0 c0 where "p = (int r0, int c0)" "r0 < length mapa" "c0 < length (mapa ! 0)"
    "mapa ! r0 ! c0 = ch"
    "\<forall>r < length mapa. \<forall>c < length (mapa ! 0). mapa ! r ! c = ch \<longrightarrow> r < r0 \<or> (r = r0 \<and> c \<le> c0)"
proof -
  obtain a b where p: "p = (a, b)" by (cases p)
  have d: "0 \<le> a" "a < int (length mapa)" "0 \<le> b" "b < int (length (mapa ! 0))"
    and m: "mapa ! nat a ! nat b = ch"
    and u: "\<forall>r < length mapa. \<forall>c < length (mapa ! 0). mapa ! r ! c = ch \<longrightarrow>
              int r < a \<or> (int r = a \<and> int c \<le> b)"
    using assms by (auto simp: ultima_ocorrencia_def dentro_def marcador_def p list_all_length)
  have "p = (int (nat a), int (nat b))" using d p by simp
  moreover have "nat a < length mapa" "nat b < length (mapa ! 0)" using d by linarith+
  moreover have "\<forall>r < length mapa. \<forall>c < length (mapa ! 0). mapa ! r ! c = ch \<longrightarrow>
              r < nat a \<or> (r = nat a \<and> c \<le> nat b)"
  proof (intro allI impI)
    fix r c assume "r < length mapa" "c < length (mapa ! 0)" "mapa ! r ! c = ch"
    then have "int r < a \<or> (int r = a \<and> int c \<le> b)"
      using u by blast
    then show "r < nat a \<or> (r = nat a \<and> c \<le> nat b)"
      using d by linarith
  qed
  ultimately show ?thesis
    using that m by blast
qed

lemma localizar_ultimas:
  assumes g: "grade_retangular mapa"
    and e: "ultima_ocorrencia mapa (CHR ''E'') partida"
    and s: "ultima_ocorrencia mapa (CHR ''S'') destino"
  shows "localizar mapa = Inr (Some partida, Some destino)"
proof -
  let ?res = "fold (\<lambda>r. fold (marca mapa r) [0..<length (mapa ! 0)]) [0..<length mapa] (None, None)"
  from e obtain r0 c0 where "partida = (int r0, int c0)" "r0 < length mapa" "c0 < length (mapa ! 0)"
    "mapa ! r0 ! c0 = CHR ''E''"
    "\<forall>r < length mapa. \<forall>c < length (mapa ! 0). mapa ! r ! c = CHR ''E'' \<longrightarrow> r < r0 \<or> (r = r0 \<and> c \<le> c0)"
    by (rule ultima_ocorrencia_nat)
  then have 1: "fst ?res = Some partida"
    by (simp add: fold_linhas_ultimo_E)
  from s obtain r1 c1 where "destino = (int r1, int c1)" "r1 < length mapa" "c1 < length (mapa ! 0)"
    "mapa ! r1 ! c1 = CHR ''S''"
    "\<forall>r < length mapa. \<forall>c < length (mapa ! 0). mapa ! r ! c = CHR ''S'' \<longrightarrow> r < r1 \<or> (r = r1 \<and> c \<le> c1)"
    by (rule ultima_ocorrencia_nat)
  then have 2: "snd ?res = Some destino"
    by (simp add: fold_linhas_ultimo_S)
  show ?thesis
    using 1 2 localizar_fold [OF g] by (simp add: prod_eq_iff)
qed

lemma sem_marca:
  assumes g: "grade_retangular mapa" and n: "\<not> contem mapa ch"
  shows "\<forall>r \<in> set [0..<length mapa]. \<forall>c \<in> set [0..<length (mapa ! 0)]. mapa ! r ! c \<noteq> ch"
proof (intro ballI)
  fix r c assume r: "r \<in> set [0..<length mapa]" and c: "c \<in> set [0..<length (mapa ! 0)]"
  have "length (mapa ! r) = length (mapa ! 0)"
    using grade_retangular_linhas [OF g] r by simp
  then have "c < length (mapa ! r)" using c by simp
  then have "mapa ! r ! c \<in> set (mapa ! r)" by (rule nth_mem)
  moreover have "mapa ! r \<in> set mapa" using r by simp
  ultimately show "mapa ! r ! c \<noteq> ch"
    using n by (auto simp: contem_def list_ex_iff)
qed

lemma localizar_sem_E:
  assumes "grade_retangular mapa" "\<not> contem mapa (CHR ''E'')"
  shows "\<exists>d. localizar mapa = Inr (None, d)"
proof -
  let ?res = "fold (\<lambda>r. fold (marca mapa r) [0..<length (mapa ! 0)]) [0..<length mapa] (None, None)"
  have "fst ?res = None"
    using fold_linhas_sem_E [OF sem_marca [OF assms], of "(None, None)"] by simp
  then have "?res = (None, snd ?res)"
    by (simp add: prod_eq_iff)
  then show ?thesis
    using localizar_fold [OF assms(1)] by metis
qed

lemma localizar_sem_S:
  assumes "grade_retangular mapa" "\<not> contem mapa (CHR ''S'')"
  shows "\<exists>p. localizar mapa = Inr (p, None)"
proof -
  let ?res = "fold (\<lambda>r. fold (marca mapa r) [0..<length (mapa ! 0)]) [0..<length mapa] (None, None)"
  have "snd ?res = None"
    using fold_linhas_sem_S [OF sem_marca [OF assms], of "(None, None)"] by simp
  then have "?res = (fst ?res, None)"
    by (simp add: prod_eq_iff)
  then show ?thesis
    using localizar_fold [OF assms(1)] by metis
qed

lemma varrer_colunas_ok:
  assumes "marcas_ok mapa linhas colunas pd" "r < linhas" "\<forall>c \<in> set cs. c < colunas"
    and "varrer_colunas mapa r cs pd = Inr pd'"
  shows "marcas_ok mapa linhas colunas pd'"
  using assms
proof (induction cs arbitrary: pd)
  case Nil
  then show ?case by simp
next
  case (Cons c cs)
  obtain p d where pd: "pd = (p, d)" by (cases pd)
  have c: "c < colunas" and cs: "\<forall>c \<in> set cs. c < colunas"
    using Cons.prems(3) by simp_all
  have len: "c < length (mapa ! r)"
    using Cons.prems(4) unfolding pd by (simp split: if_splits)
  let ?pd1 = "marca mapa r c pd"
  have step: "varrer_colunas mapa r cs ?pd1 = Inr pd'"
    using Cons.prems(4) len unfolding pd by (simp add: marca_def split: if_splits)
  have "marcas_ok mapa linhas colunas ?pd1"
    using Cons.prems(1,2) c
    by (auto simp: marcas_ok_def marca_def dentro_def marcador_def)
  then show ?case
    using Cons.IH [OF _ Cons.prems(2) cs step] by blast
qed

lemma varrer_linhas_ok:
  assumes "marcas_ok mapa linhas colunas pd" "\<forall>r \<in> set rs. r < linhas"
    and "varrer_linhas mapa colunas rs pd = Inr pd'"
  shows "marcas_ok mapa linhas colunas pd'"
  using assms
proof (induction rs arbitrary: pd)
  case Nil
  then show ?case by simp
next
  case (Cons r rs)
  obtain pd1 where 1: "varrer_colunas mapa r [0..<colunas] pd = Inr pd1"
    and 2: "varrer_linhas mapa colunas rs pd1 = Inr pd'"
    using Cons.prems(3) by (auto split: sum.splits)
  have "marcas_ok mapa linhas colunas pd1"
    using varrer_colunas_ok [OF Cons.prems(1) _ _ 1] Cons.prems(2) by simp
  then show ?case
    using Cons.IH [OF _ _ 2] Cons.prems(2) by simp
qed

lemma localizar_ok:
  assumes "localizar mapa = Inr pd"
  shows "marcas_ok mapa (length mapa) (length (mapa ! 0)) pd"
proof -
  have ne: "mapa \<noteq> []"
    using assms by (auto simp: localizar_def)
  have "marcas_ok mapa (length mapa) (length (mapa ! 0)) (None, None)"
    by (simp add: marcas_ok_def)
  then show ?thesis
    using varrer_linhas_ok [of mapa "length mapa" "length (mapa ! 0)" "(None, None)"
        "[0..<length mapa]" pd] assms localizar_naovazia [OF ne]
    by simp
qed

lemma localizar_partida:
  "localizar mapa = Inr (Some p, d) \<Longrightarrow>
   dentro (length mapa) (length (mapa ! 0)) p \<and> marcador mapa p = CHR ''E''"
  using localizar_ok [of mapa "(Some p, d)"] by (simp add: marcas_ok_def)

lemma localizar_destino:
  "localizar mapa = Inr (p, Some d) \<Longrightarrow>
   dentro (length mapa) (length (mapa ! 0)) d \<and> marcador mapa d = CHR ''S''"
  using localizar_ok [of mapa "(p, Some d)"] by (simp add: marcas_ok_def)

text \<open>
  A scan that returns has read every cell of the box, so the reads of the search loop,
  which stay inside the box, cannot raise.
\<close>

lemma varrer_colunas_comprimento:
  "varrer_colunas mapa r cs pd = Inr pd' \<Longrightarrow> \<forall>c \<in> set cs. c < length (mapa ! r)"
proof (induction cs arbitrary: pd)
  case Nil
  then show ?case by simp
next
  case (Cons c cs)
  obtain p d where pd: "pd = (p, d)" by (cases pd)
  show ?case
    using Cons.prems Cons.IH unfolding pd by (auto split: if_splits)
qed

lemma varrer_linhas_comprimento:
  "varrer_linhas mapa colunas rs pd = Inr pd' \<Longrightarrow>
   \<forall>r \<in> set rs. \<forall>c < colunas. c < length (mapa ! r)"
proof (induction rs arbitrary: pd)
  case Nil
  then show ?case by simp
next
  case (Cons r rs)
  obtain pd1 where 1: "varrer_colunas mapa r [0..<colunas] pd = Inr pd1"
    and 2: "varrer_linhas mapa colunas rs pd1 = Inr pd'"
    using Cons.prems by (auto split: sum.splits)
  show ?case
    using varrer_colunas_comprimento [OF 1] Cons.IH [OF 2] by simp
qed

lemma localizar_leituras:
  assumes "localizar mapa = Inr pd" "r < length mapa" "c < length (mapa ! 0)"
  shows "c < length (mapa ! r)"
proof -
  have ne: "mapa \<noteq> []"
    using assms(1) by (auto simp: localizar_def)
  show ?thesis
    using varrer_linhas_comprimento [of mapa "length (mapa ! 0)" "[0..<length mapa]" "(None, None)" pd]
      assms localizar_naovazia [OF ne]
    by simp
qed

section \<open>What blocks a neighbour\<close>

lemma inj_entrada: "entrada rota a = entrada rota b \<longleftrightarrow> a = b"
  by (auto simp: entrada_def prod_eq_iff)

text \<open>
  C10. Take a cell that one of the four directions reaches from the dequeued cell, that
  lies inside the grid and is not yet visited. The expansion marks it visited, and
  enqueues it with the route extended by it, exactly when its marker differs from
  \<open>#\<close>: no other marker (\<open>E\<close>, \<open>S\<close>, or a character outside the
  documented four) keeps the search out of a cell.
\<close>

theorem expandir_so_cerquilha_bloqueia:
  assumes d: "d \<in> set direcoes"
    and dentro: "dentro linhas colunas (alvo r c d)"
    and novo: "alvo r c d \<notin> visitados s"
  shows "(alvo r c d \<in> visitados (expandir mapa linhas colunas r c rota direcoes s))
           = (marcador mapa (alvo r c d) \<noteq> CHR ''#'')
       \<and> (entrada rota (alvo r c d)
             \<in> set (drop (length (fila s)) (fila (expandir mapa linhas colunas r c rota direcoes s))))
           = (marcador mapa (alvo r c d) \<noteq> CHR ''#'')"
proof -
  let ?s' = "expandir mapa linhas colunas r c rota direcoes s"
  let ?n = "alvo r c d"
  obtain ns where
    f: "fila ?s' = fila s @ map (entrada rota) ns" and
    n: "set ns = {n \<in> alvo r c ` set direcoes. transitavel mapa linhas colunas n} - visitados s" and
    v: "visitados ?s' = visitados s \<union> set ns"
    using expandir_geral [of mapa linhas colunas r c rota direcoes s] by blast
  have mem: "?n \<in> set ns \<longleftrightarrow> marcador mapa ?n \<noteq> CHR ''#''"
    using n d dentro novo by (auto simp: transitavel_def)
  have "?n \<in> visitados ?s' \<longleftrightarrow> ?n \<in> set ns"
    using v novo by simp
  moreover have "entrada rota ?n \<in> set (drop (length (fila s)) (fila ?s')) \<longleftrightarrow> ?n \<in> set ns"
    using f by (auto simp: inj_entrada)
  ultimately show ?thesis
    using mem by simp
qed

theorem expandir_so_cerquilha_bloqueia_witness:
  "(0, 1) \<in> set direcoes
   \<and> dentro 2 2 (alvo 0 0 (0, 1))
   \<and> alvo 0 0 (0, 1) \<notin> visitados (estado_inicial (0, 0))
   \<and> marcador grade_marcas (alvo 0 0 (0, 1)) = CHR ''X''
   \<and> alvo 0 0 (0, 1) \<in> visitados (expandir grade_marcas 2 2 0 0 [(0, 0)] direcoes (estado_inicial (0, 0)))
   \<and> entrada [(0, 0)] (alvo 0 0 (0, 1))
       \<in> set (drop (length (fila (estado_inicial (0, 0))))
                (fila (expandir grade_marcas 2 2 0 0 [(0, 0)] direcoes (estado_inicial (0, 0)))))"
proof -
  have a: "(0, 1) \<in> set direcoes" by (simp add: direcoes_def)
  have b: "dentro 2 2 (alvo 0 0 (0, 1))" by (simp add: dentro_def alvo_def)
  have c: "alvo 0 0 (0, 1) \<notin> visitados (estado_inicial (0, 0))"
    by (simp add: alvo_def estado_inicial_def)
  have m: "marcador grade_marcas (alvo 0 0 (0, 1)) = CHR ''X''"
    by (simp add: marcador_def alvo_def grade_marcas_def)
  show ?thesis
    using expandir_so_cerquilha_bloqueia [OF a b c, of grade_marcas "[(0, 0)]"] a b c m
    by simp
qed

section \<open>Missing markers\<close>

text \<open>The empty list is not a grid: \<open>mapa[0]\<close> raises.\<close>

lemma grade_vazia_levanta: "encontrar_melhor_rota [] = Inl IndexError"
  by (simp add: encontrar_melhor_rota_def localizar_def)

text \<open>
  C3. On a grid (non-empty, all rows as long as the first) in which no cell is \<open>E\<close>,
  or no cell is \<open>S\<close>, \<open>encontrar_melhor_rota\<close> raises nothing and returns
  \<open>(None, [], mapa, [])\<close>.
\<close>

theorem sem_partida_ou_destino:
  assumes g: "grade_retangular mapa"
    and n: "\<not> contem mapa (CHR ''E'') \<or> \<not> contem mapa (CHR ''S'')"
  shows "encontrar_melhor_rota mapa = Inr (None, [], mapa, [])"
proof -
  from n consider (e) "\<not> contem mapa (CHR ''E'')" | (s) "\<not> contem mapa (CHR ''S'')"
    by blast
  then show ?thesis
  proof cases
    case e
    then obtain d where "localizar mapa = Inr (None, d)"
      using localizar_sem_E [OF g] by blast
    then show ?thesis
      by (simp add: encontrar_melhor_rota_def)
  next
    case s
    then obtain p where "localizar mapa = Inr (p, None)"
      using localizar_sem_S [OF g] by blast
    then show ?thesis
      by (cases p) (simp_all add: encontrar_melhor_rota_def)
  qed
qed

theorem sem_partida_ou_destino_witness:
  "grade_retangular grade_sem_destino
   \<and> \<not> contem grade_sem_destino (CHR ''S'')
   \<and> encontrar_melhor_rota grade_sem_destino = Inr (None, [], grade_sem_destino, [])"
proof -
  have g: "grade_retangular grade_sem_destino"
    by (simp add: grade_retangular_def grade_sem_destino_def)
  have n: "\<not> contem grade_sem_destino (CHR ''S'')"
    by (simp add: contem_def grade_sem_destino_def)
  show ?thesis
    using sem_partida_ou_destino [OF g] g n by simp
qed

section \<open>Snapshots\<close>

lemma inv_instantaneos_registrar:
  assumes "inv_instantaneos s"
  shows "length (exploration_snapshots (registrar destino a rota (s\<lparr>fila := resto\<rparr>)))
           = (step_counter s + 4) div 5 + (if step_counter s mod 5 = 0 \<or> a = destino then 1 else 0)"
    and "\<forall>A \<in> set (exploration_snapshots (registrar destino a rota (s\<lparr>fila := resto\<rparr>))).
           A \<subseteq> visitados s"
    and "sorted_wrt (\<subseteq>) (exploration_snapshots (registrar destino a rota (s\<lparr>fila := resto\<rparr>)))"
  using assms by (auto simp: inv_instantaneos_def registrar_campos sorted_wrt_append)

lemma inv_instantaneos_passo:
  assumes i: "inv_instantaneos s" and ne: "(r, c) \<noteq> destino"
  shows "inv_instantaneos (expandir mapa linhas colunas r c rota direcoes
             (registrar destino (r, c) rota (s\<lparr>fila := resto\<rparr>)))"
proof -
  let ?s1 = "registrar destino (r, c) rota (s\<lparr>fila := resto\<rparr>)"
  let ?s2 = "expandir mapa linhas colunas r c rota direcoes ?s1"
  have "length (exploration_snapshots ?s1)
          = (step_counter s + 4) div 5 + (if step_counter s mod 5 = 0 then 1 else 0)"
    using inv_instantaneos_registrar(1) [OF i, of destino "(r, c)" rota resto] ne by simp
  also have "\<dots> = (Suc (step_counter s) + 4) div 5"
    by presburger
  finally have len: "length (exploration_snapshots ?s1) = (step_counter ?s1 + 4) div 5"
    by (simp add: registrar_campos)
  have "visitados s \<subseteq> visitados ?s2"
    using expandir_visitados_mono [of ?s1 mapa linhas colunas r c rota direcoes]
    by (simp add: registrar_campos)
  then have sub: "\<forall>A \<in> set (exploration_snapshots ?s1). A \<subseteq> visitados ?s2"
    using inv_instantaneos_registrar(2) [OF i, of destino "(r, c)" rota resto]
    by blast
  have "step_counter ?s1 = length (todos_segmentos_explorados ?s1)" "rota_ideal ?s1 = None"
    using i by (simp_all add: inv_instantaneos_def registrar_campos)
  then show ?thesis
    using len sub inv_instantaneos_registrar(3) [OF i, of destino "(r, c)" rota resto]
    by (simp add: inv_instantaneos_def expandir_campos)
qed

lemma inv_instantaneos_chegada:
  assumes i: "inv_instantaneos s"
  shows "pos_instantaneos (chegada rota (registrar destino destino rota (s\<lparr>fila := resto\<rparr>)))"
proof -
  let ?s1 = "registrar destino destino rota (s\<lparr>fila := resto\<rparr>)"
  have snaps: "exploration_snapshots ?s1 = exploration_snapshots s @ [visitados s]"
    by (simp add: registrar_campos)
  then have same: "exploration_snapshots (chegada rota ?s1) = exploration_snapshots ?s1"
    by (simp add: chegada_campos registrar_campos)
  have len: "length (exploration_snapshots ?s1) = (step_counter s + 4) div 5 + 1"
    using i snaps by (simp add: inv_instantaneos_def)
  have "(step_counter s + 4) div 5 + 1
          = (Suc (step_counter s) + 4) div 5 + (if step_counter s mod 5 \<noteq> 0 then 1 else 0)"
    by presburger
  then show ?thesis
    using i len same inv_instantaneos_registrar(3) [OF i, of destino destino rota resto]
    by (simp add: pos_instantaneos_def inv_instantaneos_def chegada_campos registrar_campos)
qed

lemma inv_instantaneos_inicial: "inv_instantaneos (estado_inicial partida)"
  by (simp add: inv_instantaneos_def estado_inicial_def)

text \<open>The count and the order of the snapshots, on the final state of the loop.\<close>

lemma instantaneos_busca:
  "step_counter (busca mapa partida destino)
     = length (todos_segmentos_explorados (busca mapa partida destino))
   \<and> length (exploration_snapshots (busca mapa partida destino))
     = (step_counter (busca mapa partida destino) + 4) div 5
       + (if rota_ideal (busca mapa partida destino) \<noteq> None
             \<and> (step_counter (busca mapa partida destino) - 1) mod 5 \<noteq> 0 then 1 else 0)
   \<and> sorted_wrt (\<subseteq>) (exploration_snapshots (busca mapa partida destino))"
proof -
  have "pos_instantaneos (busca mapa partida destino)"
    unfolding busca_def
  proof (rule laco_regra [where I = inv_instantaneos])
    show "inv_instantaneos (estado_inicial partida)"
      by (rule inv_instantaneos_inicial)
  next
    fix s r c rota resto
    assume "inv_instantaneos s" "(r, c) \<noteq> destino"
    then show "inv_instantaneos (expandir mapa (length mapa) (length (mapa ! 0)) r c rota direcoes
             (registrar destino (r, c) rota (s\<lparr>fila := resto\<rparr>)))"
      by (rule inv_instantaneos_passo)
  next
    fix s
    assume "inv_instantaneos s"
    then show "pos_instantaneos s"
      by (simp add: inv_instantaneos_def pos_instantaneos_def)
  next
    fix s r c rota resto
    assume "inv_instantaneos s" "(r, c) = destino"
    then show "pos_instantaneos (chegada rota (registrar destino (r, c) rota (s\<lparr>fila := resto\<rparr>)))"
      using inv_instantaneos_chegada by simp
  qed
  then show ?thesis
    by (simp add: pos_instantaneos_def)
qed

lemma encontrar_instantaneos:
  assumes "encontrar_melhor_rota mapa = Inr (ri, desc, m, snaps)"
  shows "(\<exists>partida destino. localizar mapa = Inr (Some partida, Some destino) \<and>
            ri = rota_ideal (busca mapa partida destino) \<and>
            snaps = exploration_snapshots (busca mapa partida destino))
         \<or> (ri = None \<and> snaps = [] \<and> total_dequeues mapa = 0 \<and> segmentos_explorados mapa = [])"
  using assms
  by (auto simp: encontrar_melhor_rota_def segmentos_explorados_def total_dequeues_def Let_def
           split: sum.splits option.splits prod.splits)

text \<open>
  C5. Every dequeue appends one route to \<open>todos_segmentos_explorados\<close> and adds
  one to \<open>step_counter\<close>, so \<open>total_dequeues\<close>, the final counter, is the
  number of dequeues of the run and the length of the list of explored routes. The run
  returns \<open>(total_dequeues + 4) div 5\<close> snapshots, that is the ceiling of a fifth
  of the dequeues, and exactly one more when a route was found on a dequeue whose index
  \<open>total_dequeues - 1\<close> is not a multiple of five. Each snapshot is a subset of
  every later one.
\<close>

theorem instantaneos_contagem:
  assumes "encontrar_melhor_rota mapa = Inr (ri, desc, m, snaps)"
  shows "length snaps
           = (total_dequeues mapa + 4) div 5
             + (if ri \<noteq> None \<and> (total_dequeues mapa - 1) mod 5 \<noteq> 0 then 1 else 0)
       \<and> sorted_wrt (\<subseteq>) snaps
       \<and> total_dequeues mapa = length (segmentos_explorados mapa)"
proof -
  consider (busca) partida destino where
      "localizar mapa = Inr (Some partida, Some destino)"
      "ri = rota_ideal (busca mapa partida destino)"
      "snaps = exploration_snapshots (busca mapa partida destino)"
    | (nada) "ri = None" "snaps = []" "total_dequeues mapa = 0" "segmentos_explorados mapa = []"
    using encontrar_instantaneos [OF assms] by auto
  then show ?thesis
  proof cases
    case busca
    have "total_dequeues mapa = step_counter (busca mapa partida destino)"
      "segmentos_explorados mapa = todos_segmentos_explorados (busca mapa partida destino)"
      using busca(1) by (simp_all add: total_dequeues_def segmentos_explorados_def)
    then show ?thesis
      using instantaneos_busca [of mapa partida destino] busca(2,3) by simp
  next
    case nada
    then show ?thesis by simp
  qed
qed

theorem instantaneos_contagem_witness:
  "total_dequeues grade_anel = 8
   \<and> length [{(0, 1)},
           {(0, 1), (0, 0), (0, 2), (1, 0), (1, 2), (2, 0), (2, 2)},
           {(0, 1), (0, 0), (0, 2), (1, 0), (1, 2), (2, 0), (2, 2), (2, 1 :: int)} :: coord set] = 3
   \<and> encontrar_melhor_rota grade_anel =
     Inr (Some [(0, 1), (0, 0), (1, 0), (2, 0), (2, 1)],
          [[(0, 1), (0, 2)], [(0, 1), (0, 2), (1, 2)], [(0, 1), (0, 2), (1, 2), (2, 2)]],
          grade_anel,
          [{(0, 1)},
           {(0, 1), (0, 0), (0, 2), (1, 0), (1, 2), (2, 0), (2, 2)},
           {(0, 1), (0, 0), (0, 2), (1, 0), (1, 2), (2, 0), (2, 2), (2, 1)}])
   \<and> sorted_wrt (\<subseteq>) [{(0, 1)},
           {(0, 1), (0, 0), (0, 2), (1, 0), (1, 2), (2, 0), (2, 2)},
           {(0, 1), (0, 0), (0, 2), (1, 0), (1, 2), (2, 0), (2, 2), (2, 1 :: int)} :: coord set]"
proof -
  have e: "encontrar_melhor_rota grade_anel =
     Inr (Some [(0, 1), (0, 0), (1, 0), (2, 0), (2, 1)],
          [[(0, 1), (0, 2)], [(0, 1), (0, 2), (1, 2)], [(0, 1), (0, 2), (1, 2), (2, 2)]],
          grade_anel,
          [{(0, 1)},
           {(0, 1), (0, 0), (0, 2), (1, 0), (1, 2), (2, 0), (2, 2)},
           {(0, 1), (0, 0), (0, 2), (1, 0), (1, 2), (2, 0), (2, 2), (2, 1)}])"
    by code_simp
  have t: "total_dequeues grade_anel = 8"
    by code_simp
  show ?thesis
    using instantaneos_contagem [OF e] e t by simp
qed

section \<open>The routes in the queue\<close>

lemma rota_boa_mono:
  "rota_boa mapa linhas colunas partida V e \<Longrightarrow> V \<subseteq> V' \<Longrightarrow>
   rota_boa mapa linhas colunas partida V' e"
  by (auto simp: rota_boa_def)

lemma rota_boa_estende:
  assumes b: "rota_boa mapa linhas colunas partida V (r, c, rota)"
    and a: "adjacente (r, c) n" and t: "transitavel mapa linhas colunas n"
    and n: "n \<notin> V" and v: "insert n V \<subseteq> V'"
  shows "rota_boa mapa linhas colunas partida V' (entrada rota n)"
proof -
  have ne: "rota \<noteq> []" and ta: "list_all (transitavel mapa linhas colunas) rota"
    and su: "successively adjacente rota" and h: "hd rota = partida"
    and l: "last rota = (r, c)" and d: "distinct rota" and s: "set rota \<subseteq> V"
    using b by (simp_all add: rota_boa_def caminho_def)
  have "successively adjacente (rota @ [n])"
    using su a l ne by (simp add: successively_append_iff)
  then have "caminho mapa linhas colunas (rota @ [n])"
    using ta t by (simp add: caminho_def)
  moreover have "distinct (rota @ [n])" using d s n by auto
  moreover have "set (rota @ [n]) \<subseteq> V'" using s v by auto
  ultimately show ?thesis
    using ne h by (simp add: rota_boa_def entrada_def)
qed

lemma inv_rotas_passo:
  assumes i: "inv_rotas mapa linhas colunas partida s"
    and f: "fila s = (r, c, rota) # resto"
  shows "inv_rotas mapa linhas colunas partida
           (expandir mapa linhas colunas r c rota direcoes
              (registrar destino (r, c) rota (s\<lparr>fila := resto\<rparr>)))"
proof -
  let ?s1 = "registrar destino (r, c) rota (s\<lparr>fila := resto\<rparr>)"
  let ?s2 = "expandir mapa linhas colunas r c rota direcoes ?s1"
  obtain ns where
    fl: "fila ?s2 = fila ?s1 @ map (entrada rota) ns" and
    n: "set ns = {n \<in> alvo r c ` set direcoes. transitavel mapa linhas colunas n} - visitados ?s1" and
    v: "visitados ?s2 = visitados ?s1 \<union> set ns"
    using expandir_geral [of mapa linhas colunas r c rota direcoes ?s1] by blast
  have v1: "visitados ?s1 = visitados s" and f1: "fila ?s1 = resto"
    by (simp_all add: registrar_campos)
  have cur: "rota_boa mapa linhas colunas partida (visitados s) (r, c, rota)"
    and rest: "\<forall>e \<in> set resto. rota_boa mapa linhas colunas partida (visitados s) e"
    using i f by (simp_all add: inv_rotas_def)
  have "rota_boa mapa linhas colunas partida (visitados ?s2) e" if e: "e \<in> set (fila ?s2)" for e
  proof (cases "e \<in> set resto")
    case True
    then show ?thesis
      using rest rota_boa_mono [of mapa linhas colunas partida "visitados s" e "visitados ?s2"] v v1
      by auto
  next
    case False
    then obtain m where m: "m \<in> set ns" and em: "e = entrada rota m"
      using e fl f1 by auto
    have "adjacente (r, c) m" "transitavel mapa linhas colunas m" "m \<notin> visitados s"
      using m n v1 by (auto simp: adjacente_direcoes)
    moreover have "insert m (visitados s) \<subseteq> visitados ?s2"
      using m v v1 by auto
    ultimately show ?thesis
      unfolding em using rota_boa_estende [OF cur] by blast
  qed
  moreover have "rota_ideal ?s2 = None"
    using i by (simp add: inv_rotas_def expandir_campos registrar_campos)
  ultimately show ?thesis
    by (simp add: inv_rotas_def)
qed

lemma inv_rotas_inicial:
  "transitavel mapa linhas colunas partida \<Longrightarrow>
   inv_rotas mapa linhas colunas partida (estado_inicial partida)"
  by (simp add: inv_rotas_def estado_inicial_def rota_boa_def caminho_def)

lemma busca_pos_rotas:
  assumes "transitavel mapa (length mapa) (length (mapa ! 0)) partida"
  shows "pos_rotas mapa (length mapa) (length (mapa ! 0)) partida destino (busca mapa partida destino)"
  unfolding busca_def
proof (rule laco_regra [where I = "inv_rotas mapa (length mapa) (length (mapa ! 0)) partida"])
  show "inv_rotas mapa (length mapa) (length (mapa ! 0)) partida (estado_inicial partida)"
    using assms by (rule inv_rotas_inicial)
next
  fix s r c rota resto
  assume "inv_rotas mapa (length mapa) (length (mapa ! 0)) partida s" "fila s = (r, c, rota) # resto"
  then show "inv_rotas mapa (length mapa) (length (mapa ! 0)) partida
               (expandir mapa (length mapa) (length (mapa ! 0)) r c rota direcoes
                  (registrar destino (r, c) rota (s\<lparr>fila := resto\<rparr>)))"
    by (rule inv_rotas_passo)
next
  fix s
  assume "inv_rotas mapa (length mapa) (length (mapa ! 0)) partida s"
  then show "pos_rotas mapa (length mapa) (length (mapa ! 0)) partida destino s"
    by (simp add: inv_rotas_def pos_rotas_def)
next
  fix s r c rota resto
  assume i: "inv_rotas mapa (length mapa) (length (mapa ! 0)) partida s"
    and f: "fila s = (r, c, rota) # resto" and d: "(r, c) = destino"
  have "rota_boa mapa (length mapa) (length (mapa ! 0)) partida (visitados s) (r, c, rota)"
    using i f by (simp add: inv_rotas_def)
  then show "pos_rotas mapa (length mapa) (length (mapa ! 0)) partida destino
               (chegada rota (registrar destino (r, c) rota (s\<lparr>fila := resto\<rparr>)))"
    using d by (simp add: pos_rotas_def chegada_campos rota_boa_def)
qed

lemma encontrar_Some:
  assumes "encontrar_melhor_rota mapa = Inr (ri, desc, m, snaps)" "ri \<noteq> None \<or> desc \<noteq> [] \<or> snaps \<noteq> []"
  obtains partida destino where "localizar mapa = Inr (Some partida, Some destino)"
    "ri = rota_ideal (busca mapa partida destino)"
    "desc = filtrar_descartadas ri (todos_segmentos_explorados (busca mapa partida destino))"
    "snaps = exploration_snapshots (busca mapa partida destino)"
  using assms
  by (auto simp: encontrar_melhor_rota_def Let_def split: sum.splits option.splits prod.splits)

lemma transitavel_partida:
  "localizar mapa = Inr (Some p, d) \<Longrightarrow> transitavel mapa (length mapa) (length (mapa ! 0)) p"
  using localizar_partida [of mapa p d] by (simp add: transitavel_def)

text \<open>
  C6. A route returned by \<open>encontrar_melhor_rota\<close> is non-empty; each of its cells
  lies inside the grid and is not marked \<open>#\<close>; consecutive cells are 4-adjacent;
  no cell occurs twice; its first cell carries \<open>E\<close> and is the start the scan
  located (and its last cell is the destination the scan located).
\<close>

theorem rota_ideal_caminho_simples:
  assumes "encontrar_melhor_rota mapa = Inr (Some p, desc, m, snaps)"
  shows "p \<noteq> []
       \<and> list_all (\<lambda>x. dentro (length mapa) (length (mapa ! 0)) x \<and> marcador mapa x \<noteq> CHR ''#'') p
       \<and> successively adjacente p
       \<and> distinct p
       \<and> marcador mapa (hd p) = CHR ''E''
       \<and> (\<exists>d. localizar mapa = Inr (Some (hd p), Some d) \<and> last p = d)"
proof -
  from assms obtain partida destino where
    l: "localizar mapa = Inr (Some partida, Some destino)" and
    r: "Some p = rota_ideal (busca mapa partida destino)"
    by (rule encontrar_Some [where ri = "Some p"]) simp_all
  have "pos_rotas mapa (length mapa) (length (mapa ! 0)) partida destino (busca mapa partida destino)"
    using transitavel_partida [OF l] by (rule busca_pos_rotas)
  then have c: "caminho mapa (length mapa) (length (mapa ! 0)) p" and h: "hd p = partida"
    and e: "last p = destino" and d: "distinct p"
    using r by (simp_all add: pos_rotas_def)
  have "list_all (\<lambda>x. dentro (length mapa) (length (mapa ! 0)) x \<and> marcador mapa x \<noteq> CHR ''#'') p"
    using c by (simp add: caminho_def list_all_iff transitavel_def)
  moreover have "marcador mapa (hd p) = CHR ''E''"
    using localizar_partida [OF l] h by simp
  ultimately show ?thesis
    using c d l h e by (simp add: caminho_def)
qed

theorem rota_ideal_caminho_simples_witness:
  "encontrar_melhor_rota grade_exemplo =
     Inr (Some [(0, 0), (1, 0), (2, 0), (2, 1), (2, 2)],
          [[(0, 0), (0, 1)]],
          grade_exemplo,
          [{(0, 0)}, {(0, 0), (1, 0), (0, 1), (2, 0), (2, 1), (2, 2)}])
   \<and> successively adjacente [(0, 0), (1, 0), (2, 0), (2, 1), (2, 2)]
   \<and> distinct [(0, 0), (1, 0), (2, 0), (2, 1), (2, 2 :: int) :: coord]
   \<and> marcador grade_exemplo (0, 0) = CHR ''E''"
proof -
  have e: "encontrar_melhor_rota grade_exemplo =
     Inr (Some [(0, 0), (1, 0), (2, 0), (2, 1), (2, 2)],
          [[(0, 0), (0, 1)]],
          grade_exemplo,
          [{(0, 0)}, {(0, 0), (1, 0), (0, 1), (2, 0), (2, 1), (2, 2)}])"
    by code_simp
  show ?thesis
    using rota_ideal_caminho_simples [OF e] e by simp
qed

lemma encontrar_casos:
  assumes "encontrar_melhor_rota mapa = Inr (ri, desc, m, snaps)"
  shows "(\<exists>partida destino. localizar mapa = Inr (Some partida, Some destino) \<and>
            ri = rota_ideal (busca mapa partida destino) \<and>
            desc = filtrar_descartadas ri (todos_segmentos_explorados (busca mapa partida destino)))
         \<or> (ri = None \<and> desc = [] \<and> segmentos_explorados mapa = [])"
  using assms
  by (auto simp: encontrar_melhor_rota_def segmentos_explorados_def Let_def
           split: sum.splits option.splits prod.splits)

text \<open>
  C4. \<open>segmentos_explorados\<close> is the list of routes dequeued by the run. With a
  route found, the discarded list is that list filtered to the routes that have a cell
  outside the found route and differ from it, so every discarded route has a cell outside
  the found route; with none found, it is that list filtered to the routes of more than
  one cell.
\<close>

theorem descartadas_filtradas:
  assumes "encontrar_melhor_rota mapa = Inr (ri, desc, m, snaps)"
  shows "(case ri of
            Some ideal \<Rightarrow>
              desc = filter (\<lambda>seg. (\<exists>pt \<in> set seg. pt \<notin> set ideal) \<and> seg \<noteq> ideal)
                            (segmentos_explorados mapa)
              \<and> (\<forall>seg \<in> set desc. \<exists>pt \<in> set seg. pt \<notin> set ideal)
          | None \<Rightarrow> desc = filter (\<lambda>seg. length seg > 1) (segmentos_explorados mapa))"
proof -
  consider (busca) partida destino where
      "localizar mapa = Inr (Some partida, Some destino)"
      "ri = rota_ideal (busca mapa partida destino)"
      "desc = filtrar_descartadas ri (todos_segmentos_explorados (busca mapa partida destino))"
    | (nada) "ri = None" "desc = []" "segmentos_explorados mapa = []"
    using encontrar_casos [OF assms] by blast
  then show ?thesis
  proof cases
    case busca
    have s: "segmentos_explorados mapa = todos_segmentos_explorados (busca mapa partida destino)"
      using busca(1) by (simp add: segmentos_explorados_def)
    have "pos_rotas mapa (length mapa) (length (mapa ! 0)) partida destino
            (busca mapa partida destino)"
      using transitavel_partida [OF busca(1)] by (rule busca_pos_rotas)
    then have ne: "ideal \<noteq> []" if "ri = Some ideal" for ideal
      using busca(2) that by (auto simp: pos_rotas_def caminho_def)
    show ?thesis
    proof (cases ri)
      case None
      then show ?thesis
        using busca(3) s by (simp add: filtrar_descartadas_def)
    next
      case (Some ideal)
      then show ?thesis
        using busca(3) s ne [OF Some]
        by (simp add: filtrar_descartadas_def is_wrong_path_segment_def list_ex_iff)
    qed
  next
    case nada
    then show ?thesis by simp
  qed
qed

theorem descartadas_filtradas_witness:
  "encontrar_melhor_rota grade_anel =
     Inr (Some [(0, 1), (0, 0), (1, 0), (2, 0), (2, 1)],
          [[(0, 1), (0, 2)], [(0, 1), (0, 2), (1, 2)], [(0, 1), (0, 2), (1, 2), (2, 2)]],
          grade_anel,
          [{(0, 1)},
           {(0, 1), (0, 0), (0, 2), (1, 0), (1, 2), (2, 0), (2, 2)},
           {(0, 1), (0, 0), (0, 2), (1, 0), (1, 2), (2, 0), (2, 2), (2, 1)}])
   \<and> [[(0, 1), (0, 2)], [(0, 1), (0, 2), (1, 2)], [(0, 1), (0, 2), (1, 2), (2, 2)]]
       = filter (\<lambda>seg. (\<exists>pt \<in> set seg. pt \<notin> set [(0, 1), (0, 0), (1, 0), (2, 0), (2, 1)])
                        \<and> seg \<noteq> [(0, 1), (0, 0), (1, 0), (2, 0), (2, 1)])
                (segmentos_explorados grade_anel)"
proof -
  have e: "encontrar_melhor_rota grade_anel =
     Inr (Some [(0, 1), (0, 0), (1, 0), (2, 0), (2, 1)],
          [[(0, 1), (0, 2)], [(0, 1), (0, 2), (1, 2)], [(0, 1), (0, 2), (1, 2), (2, 2)]],
          grade_anel,
          [{(0, 1)},
           {(0, 1), (0, 0), (0, 2), (1, 0), (1, 2), (2, 0), (2, 2)},
           {(0, 1), (0, 0), (0, 2), (1, 0), (1, 2), (2, 0), (2, 2), (2, 1)}])"
    by code_simp
  show ?thesis
    using descartadas_filtradas [OF e] e by simp
qed

section \<open>Repeated markers\<close>

lemma inv_primeiro_registrar:
  assumes "inv_primeiro partida s" "fila s = (r, c, rota) # resto"
  shows "pos_primeiro partida (registrar destino (r, c) rota (s\<lparr>fila := resto\<rparr>))"
  using assms by (auto simp: inv_primeiro_def pos_primeiro_def registrar_campos)

lemma busca_pos_primeiro: "pos_primeiro partida (busca mapa partida destino)"
  unfolding busca_def
proof (rule laco_regra [where I = "inv_primeiro partida"])
  show "inv_primeiro partida (estado_inicial partida)"
    by (simp add: inv_primeiro_def estado_inicial_def)
next
  fix s r c rota resto
  assume "inv_primeiro partida s" "fila s = (r, c, rota) # resto"
  then have "pos_primeiro partida (registrar destino (r, c) rota (s\<lparr>fila := resto\<rparr>))"
    by (rule inv_primeiro_registrar)
  then show "inv_primeiro partida
               (expandir mapa (length mapa) (length (mapa ! 0)) r c rota direcoes
                  (registrar destino (r, c) rota (s\<lparr>fila := resto\<rparr>)))"
    by (simp add: inv_primeiro_def pos_primeiro_def expandir_campos)
next
  fix s
  assume "inv_primeiro partida s" "fila s = []"
  then show "pos_primeiro partida s"
    by (auto simp: inv_primeiro_def pos_primeiro_def)
next
  fix s r c rota resto
  assume "inv_primeiro partida s" "fila s = (r, c, rota) # resto"
  then have "pos_primeiro partida (registrar destino (r, c) rota (s\<lparr>fila := resto\<rparr>))"
    by (rule inv_primeiro_registrar)
  then show "pos_primeiro partida
               (chegada rota (registrar destino (r, c) rota (s\<lparr>fila := resto\<rparr>)))"
    by (simp add: pos_primeiro_def chegada_campos)
qed

text \<open>
  C9, as the claim is worded, fails: more than one \<open>E\<close> does not by itself make
  the search run. On the one-row grid with two \<open>E\<close> and no \<open>S\<close> the scan
  keeps the last \<open>E\<close>, finds no destination, and lines 57 to 59 report the missing
  marker and return \<open>(None, [], mapa, [])\<close> without a single dequeue.
\<close>

theorem duas_partidas_sem_destino:
  "count_list (concat grade_duas_partidas) (CHR ''E'') = 2
   \<and> grade_retangular grade_duas_partidas
   \<and> localizar grade_duas_partidas = Inr (Some (0, 1), None)
   \<and> encontrar_melhor_rota grade_duas_partidas = Inr (None, [], grade_duas_partidas, [])
   \<and> total_dequeues grade_duas_partidas = 0"
  by code_simp

text \<open>
  C9, amended by the condition that the grid has at least one \<open>E\<close> and at least
  one \<open>S\<close> (however many of each): the scan returns, for each marker, the occurrence
  that comes last reading the grid row by row; no error is raised; the result is that of
  the search run from those two cells; that run dequeues at least once, its first
  recorded route is the last \<open>E\<close> alone, and a route it finds leads from the last
  \<open>E\<close> to the last \<open>S\<close>.
\<close>

theorem varias_marcas_ultima_ocorrencia:
  assumes g: "grade_retangular mapa"
    and e: "ultima_ocorrencia mapa (CHR ''E'') partida"
    and s: "ultima_ocorrencia mapa (CHR ''S'') destino"
  shows "localizar mapa = Inr (Some partida, Some destino)
       \<and> encontrar_melhor_rota mapa =
           Inr (rota_ideal (busca mapa partida destino),
                filtrar_descartadas (rota_ideal (busca mapa partida destino))
                  (todos_segmentos_explorados (busca mapa partida destino)),
                mapa,
                exploration_snapshots (busca mapa partida destino))
       \<and> segmentos_explorados mapa \<noteq> []
       \<and> hd (segmentos_explorados mapa) = [partida]
       \<and> 0 < total_dequeues mapa
       \<and> (\<forall>p. rota_ideal (busca mapa partida destino) = Some p \<longrightarrow>
             hd p = partida \<and> last p = destino)"
proof -
  let ?s = "busca mapa partida destino"
  have l: "localizar mapa = Inr (Some partida, Some destino)"
    using g e s by (rule localizar_ultimas)
  have r: "encontrar_melhor_rota mapa =
           Inr (rota_ideal ?s, filtrar_descartadas (rota_ideal ?s) (todos_segmentos_explorados ?s),
                mapa, exploration_snapshots ?s)"
    using l by (simp add: encontrar_melhor_rota_def Let_def)
  have se: "segmentos_explorados mapa = todos_segmentos_explorados ?s"
    and td: "total_dequeues mapa = step_counter ?s"
    using l by (simp_all add: segmentos_explorados_def total_dequeues_def)
  have p1: "todos_segmentos_explorados ?s \<noteq> []" "hd (todos_segmentos_explorados ?s) = [partida]"
    using busca_pos_primeiro [of partida mapa destino] by (simp_all add: pos_primeiro_def)
  have "step_counter ?s = length (todos_segmentos_explorados ?s)"
    using instantaneos_busca [of mapa partida destino] by simp
  then have pos: "0 < total_dequeues mapa"
    using p1(1) td by simp
  have "pos_rotas mapa (length mapa) (length (mapa ! 0)) partida destino ?s"
    using transitavel_partida [OF l] by (rule busca_pos_rotas)
  then have ext: "\<forall>p. rota_ideal ?s = Some p \<longrightarrow> hd p = partida \<and> last p = destino"
    by (simp add: pos_rotas_def)
  show ?thesis
    using l r se p1 pos ext by simp
qed

theorem varias_marcas_ultima_ocorrencia_witness:
  "grade_retangular grade_duplas
   \<and> count_list (concat grade_duplas) (CHR ''E'') = 2
   \<and> count_list (concat grade_duplas) (CHR ''S'') = 2
   \<and> ultima_ocorrencia grade_duplas (CHR ''E'') (0, 1)
   \<and> ultima_ocorrencia grade_duplas (CHR ''S'') (1, 2)
   \<and> localizar grade_duplas = Inr (Some (0, 1), Some (1, 2))
   \<and> rota_ideal (busca grade_duplas (0, 1) (1, 2)) = Some [(0, 1), (1, 1), (1, 2)]
   \<and> hd (segmentos_explorados grade_duplas) = [(0, 1)]
   \<and> 0 < total_dequeues grade_duplas"
proof -
  have g: "grade_retangular grade_duplas"
    by (simp add: grade_retangular_def grade_duplas_def)
  have n: "count_list (concat grade_duplas) (CHR ''E'') = 2"
    "count_list (concat grade_duplas) (CHR ''S'') = 2"
    by code_simp+
  have e: "ultima_ocorrencia grade_duplas (CHR ''E'') (0, 1)"
    by code_simp
  have s: "ultima_ocorrencia grade_duplas (CHR ''S'') (1, 2)"
    by code_simp
  have r: "rota_ideal (busca grade_duplas (0, 1) (1, 2)) = Some [(0, 1), (1, 1), (1, 2)]"
    by code_simp
  show ?thesis
    using varias_marcas_ultima_ocorrencia [OF g e s] g n e s r by simp
qed

section \<open>Breadth-first order and the shortest route\<close>

lemma celula_entrada [simp]: "celula (entrada rota n) = n"
  by (simp add: celula_def entrada_def)

lemma rota_de_entrada [simp]: "rota_de (entrada rota n) = rota @ [n]"
  by (simp add: rota_de_def entrada_def)

lemma celula_tripla [simp]: "celula (r, c, rota) = (r, c)"
  by (simp add: celula_def)

lemma rota_de_tripla [simp]: "rota_de (r, c, rota) = rota"
  by (simp add: rota_de_def)

lemma rota_boa_celula:
  assumes "rota_boa mapa linhas colunas partida V e"
  shows "celula e \<in> V \<and> rota_de e \<noteq> []"
proof -
  have ne: "rota_de e \<noteq> []" and l: "last (rota_de e) = celula e" and s: "set (rota_de e) \<subseteq> V"
    using assms by (simp_all add: rota_boa_def celula_def rota_de_def caminho_def)
  have "last (rota_de e) \<in> set (rota_de e)" using ne by (rule last_in_set)
  then show ?thesis using ne l s by auto
qed

lemma caminho_prefixo:
  "caminho mapa linhas colunas (q @ [w]) \<Longrightarrow> q \<noteq> [] \<Longrightarrow>
   caminho mapa linhas colunas q \<and> adjacente (last q) w \<and> transitavel mapa linhas colunas w"
  by (simp add: caminho_def successively_append_iff)

text \<open>The state after one iteration, described in one place.\<close>

lemma passo_forma:
  "\<exists>ns. fila (expandir mapa linhas colunas r c rota direcoes
                 (registrar destino (r, c) rota (s\<lparr>fila := resto\<rparr>)))
           = resto @ map (entrada rota) ns
      \<and> distinct ns
      \<and> set ns = {n. adjacente (r, c) n \<and> transitavel mapa linhas colunas n} - visitados s
      \<and> visitados (expandir mapa linhas colunas r c rota direcoes
                     (registrar destino (r, c) rota (s\<lparr>fila := resto\<rparr>)))
           = visitados s \<union> set ns"
proof -
  let ?s1 = "registrar destino (r, c) rota (s\<lparr>fila := resto\<rparr>)"
  obtain ns where
    "fila (expandir mapa linhas colunas r c rota direcoes ?s1) = fila ?s1 @ map (entrada rota) ns"
    "distinct ns"
    "set ns = {n \<in> alvo r c ` set direcoes. transitavel mapa linhas colunas n} - visitados ?s1"
    "visitados (expandir mapa linhas colunas r c rota direcoes ?s1) = visitados ?s1 \<union> set ns"
    using expandir_geral [of mapa linhas colunas r c rota direcoes ?s1] by blast
  moreover have "{n \<in> alvo r c ` set direcoes. transitavel mapa linhas colunas n}
                   = {n. adjacente (r, c) n \<and> transitavel mapa linhas colunas n}"
    by (auto simp: adjacente_direcoes)
  ultimately show ?thesis
    by (intro exI [of _ ns]) (simp add: registrar_campos)
qed

lemma inv_bfs_passo:
  assumes i: "inv_bfs mapa linhas colunas partida destino s"
    and f: "fila s = (r, c, rota) # resto"
    and nd: "(r, c) \<noteq> destino"
  shows "inv_bfs mapa linhas colunas partida destino
           (expandir mapa linhas colunas r c rota direcoes
              (registrar destino (r, c) rota (s\<lparr>fila := resto\<rparr>)))"
proof -
  let ?s' = "expandir mapa linhas colunas r c rota direcoes
              (registrar destino (r, c) rota (s\<lparr>fila := resto\<rparr>))"
  let ?V = "visitados s"
  obtain ns where
    fl: "fila ?s' = resto @ map (entrada rota) ns" and
    dn: "distinct ns" and
    sn: "set ns = {n. adjacente (r, c) n \<and> transitavel mapa linhas colunas n} - ?V" and
    vs: "visitados ?s' = ?V \<union> set ns"
    using passo_forma [where mapa = mapa and linhas = linhas and colunas = colunas and r = r
        and c = c and rota = rota and destino = destino and s = s and resto = resto]
    by blast
  have ir: "inv_rotas mapa linhas colunas partida s"
    and so: "sorted_wrt niveis (fila s)"
    and di: "distinct (map celula (fila s))"
    and fe: "fechado mapa linhas colunas s"
    and go: "destino \<in> ?V \<longrightarrow> destino \<in> celula ` set (fila s)"
    and co: "\<And>q. caminho mapa linhas colunas q \<Longrightarrow> hd q = partida \<Longrightarrow> cobre s q"
    using i by (simp_all add: inv_bfs_def)
  have boas: "\<And>e. e \<in> set (fila s) \<Longrightarrow> rota_boa mapa linhas colunas partida ?V e"
    using ir by (simp add: inv_rotas_def)
  have cel_V: "\<And>e. e \<in> set (fila s) \<Longrightarrow> celula e \<in> ?V"
    using boas rota_boa_celula by blast
  have rc_V: "(r, c) \<in> ?V"
    using cel_V [of "(r, c, rota)"] f by simp
  have rota_ne: "rota \<noteq> []"
    using boas [of "(r, c, rota)"] rota_boa_celula [of mapa linhas colunas partida ?V "(r, c, rota)"] f
    by simp
  have resto_lo: "\<And>e. e \<in> set resto \<Longrightarrow> length rota \<le> length (rota_de e)"
    and resto_hi: "\<And>e. e \<in> set resto \<Longrightarrow> length (rota_de e) \<le> Suc (length rota)"
    using so f by (auto simp: niveis_def)
  have cel_resto: "celula ` set (fila ?s') = celula ` set resto \<union> set ns"
    using fl by (auto simp: image_Un image_image)
  have rc_fora: "(r, c) \<notin> celula ` set (fila ?s')"
  proof -
    have "(r, c) \<notin> celula ` set resto" using di f by auto
    moreover have "(r, c) \<notin> set ns" using sn rc_V by simp
    ultimately show ?thesis using cel_resto by simp
  qed
  have novo_hi: "\<And>e. e \<in> set (fila ?s') \<Longrightarrow> length (rota_de e) \<le> Suc (length rota)"
    using fl resto_hi by auto

  have 1: "inv_rotas mapa linhas colunas partida ?s'"
    using ir f by (rule inv_rotas_passo)

  have 2: "sorted_wrt niveis (fila ?s')"
  proof -
    have "sorted_wrt niveis resto" using so f by simp
    moreover have "sorted_wrt niveis (map (entrada rota) ns)"
      by (simp add: sorted_wrt_map niveis_def sorted_wrt_iff_nth_less)
    moreover have "\<forall>x \<in> set resto. \<forall>y \<in> set (map (entrada rota) ns). niveis x y"
      using resto_lo resto_hi by (auto simp: niveis_def)
    ultimately show ?thesis
      unfolding fl by (simp add: sorted_wrt_append)
  qed

  have 3: "distinct (map celula (fila ?s'))"
  proof -
    have "distinct (map celula resto)" using di f by simp
    moreover have "map celula (map (entrada rota) ns) = ns"
      by (simp add: comp_def)
    moreover have "celula e \<in> ?V" if "e \<in> set resto" for e
      using cel_V [of e] that f by simp
    then have "set (map celula resto) \<inter> set ns = {}"
      using sn by auto
    ultimately show ?thesis
      unfolding fl using dn by simp
  qed

  have 4: "fechado mapa linhas colunas ?s'"
    unfolding fechado_def
  proof (intro ballI impI allI)
    fix v w
    assume v: "v \<in> visitados ?s'" and vf: "v \<notin> celula ` set (fila ?s')"
      and aw: "adjacente v w \<and> transitavel mapa linhas colunas w"
    have vV: "v \<in> ?V" and vr: "v \<notin> celula ` set resto"
      using v vf vs cel_resto by auto
    show "w \<in> visitados ?s'"
    proof (cases "v = (r, c)")
      case True
      then show ?thesis using aw sn vs by auto
    next
      case False
      then have "v \<notin> celula ` set (fila s)" using vr f by auto
      then have "w \<in> ?V" using fe vV aw unfolding fechado_def by blast
      then show ?thesis using vs by simp
    qed
  qed

  have 5: "destino \<in> visitados ?s' \<longrightarrow> destino \<in> celula ` set (fila ?s')"
  proof
    assume "destino \<in> visitados ?s'"
    then consider "destino \<in> ?V" | "destino \<in> set ns" using vs by auto
    then show "destino \<in> celula ` set (fila ?s')"
    proof cases
      case 1
      then have "destino \<in> celula ` set (fila s)" using go by simp
      then have "destino \<in> celula ` set resto" using f nd by auto
      then show ?thesis using cel_resto by simp
    next
      case 2
      then show ?thesis using cel_resto by simp
    qed
  qed

  have 6: "caminho mapa linhas colunas q \<and> hd q = partida \<longrightarrow> cobre ?s' q" for q
  proof (induction q rule: rev_induct)
    case Nil
    show ?case by (simp add: caminho_def)
  next
    case (snoc w q)
    show ?case
    proof
      assume cq: "caminho mapa linhas colunas (q @ [w]) \<and> hd (q @ [w]) = partida"
      have velho: "cobre s (q @ [w])" using co cq by blast
      have preserva_3: "cobre ?s' (q @ [w])" if "w \<in> ?V" "w \<notin> celula ` set resto"
      proof -
        have "w \<in> visitados ?s'" using that vs by simp
        moreover have "w \<notin> celula ` set (fila ?s')"
          using that cel_resto sn by simp
        ultimately show ?thesis by (simp add: cobre_def)
      qed
      from velho consider
          (a) e where "e \<in> set (fila s)" "celula e = w" "length (rota_de e) \<le> length (q @ [w])"
        | (b) e where "e \<in> set (fila s)" "length (rota_de e) < length (q @ [w])"
        | (c) "w \<in> ?V" "w \<notin> celula ` set (fila s)"
        by (auto simp: cobre_def)
      then show "cobre ?s' (q @ [w])"
      proof cases
        case a
        show ?thesis
        proof (cases "e \<in> set resto")
          case True
          then have "e \<in> set (fila ?s')" using fl by simp
          then show ?thesis using a by (auto simp: cobre_def)
        next
          case False
          then have "e = (r, c, rota)" using a(1) f by simp
          then have "w = (r, c)" using a(2) by simp
          then show ?thesis
            using preserva_3 rc_V rc_fora cel_resto by simp
        qed
      next
        case c
        then show ?thesis using preserva_3 f by simp
      next
        case b
        show ?thesis
        proof (cases "e \<in> set resto")
          case True
          then have "e \<in> set (fila ?s')" using fl by simp
          then show ?thesis using b by (auto simp: cobre_def)
        next
          case False
          then have "e = (r, c, rota)" using b(1) f by simp
          then have longo: "length rota < length (q @ [w])" using b(2) by simp
          have qne: "q \<noteq> []"
          proof
            assume "q = []"
            with longo have "rota = []" by simp
            with rota_ne show False by simp
          qed
          have cq': "caminho mapa linhas colunas q" and adj: "adjacente (last q) w"
            and tw: "transitavel mapa linhas colunas w"
            using caminho_prefixo [of mapa linhas colunas q w] cq qne by simp_all
          have "hd q = partida" using cq qne by simp
          then have "cobre ?s' q" using snoc.IH cq' by simp
          then consider
              (a') e' where "e' \<in> set (fila ?s')" "length (rota_de e') \<le> length q"
            | (c') "last q \<in> visitados ?s'" "last q \<notin> celula ` set (fila ?s')"
            by (auto simp: cobre_def intro: less_imp_le)
          then show ?thesis
          proof cases
            case a'
            then have "length (rota_de e') < length (q @ [w])" by simp
            then show ?thesis using a'(1) by (auto simp: cobre_def)
          next
            case c'
            then have wV: "w \<in> visitados ?s'"
              using 4 adj tw unfolding fechado_def by blast
            show ?thesis
            proof (cases "w \<in> celula ` set (fila ?s')")
              case True
              then obtain e' where e': "e' \<in> set (fila ?s')" "celula e' = w" by auto
              have "length (rota_de e') \<le> length (q @ [w])"
                using novo_hi [OF e'(1)] longo by simp
              then show ?thesis using e' by (auto simp: cobre_def)
            next
              case False
              then show ?thesis using wV by (simp add: cobre_def)
            qed
          qed
        qed
      qed
    qed
  qed
  show ?thesis
    using 1 2 3 4 5 6 by (simp add: inv_bfs_def)
qed

lemma inv_bfs_inicial:
  assumes t: "transitavel mapa linhas colunas partida"
  shows "inv_bfs mapa linhas colunas partida destino (estado_inicial partida)"
proof -
  let ?s = "estado_inicial partida"
  have f: "fila ?s = [(fst partida, snd partida, [partida])]" and v: "visitados ?s = {partida}"
    by (simp_all add: estado_inicial_def)
  have "cobre ?s q" if "caminho mapa linhas colunas q" "hd q = partida" for q
  proof (cases "length q \<le> 1")
    case True
    then have "q = [partida]"
      using that by (cases q) (simp_all add: caminho_def)
    then show ?thesis
      by (simp add: cobre_def f)
  next
    case False
    then show ?thesis
      by (simp add: cobre_def f)
  qed
  then show ?thesis
    using inv_rotas_inicial [OF t]
    by (simp add: inv_bfs_def f v fechado_def)
qed

lemma inv_bfs_vazia:
  assumes i: "inv_bfs mapa linhas colunas partida destino s" and f: "fila s = []"
  shows "pos_bfs mapa linhas colunas partida destino s"
  unfolding pos_bfs_def
proof (intro allI impI)
  fix q
  assume q: "caminho mapa linhas colunas q \<and> hd q = partida \<and> last q = destino"
  then have "cobre s q" using i by (simp add: inv_bfs_def)
  then have "destino \<in> visitados s" using f q by (simp add: cobre_def)
  then have False using i f by (simp add: inv_bfs_def)
  then show "\<exists>p. rota_ideal s = Some p \<and> length p \<le> length q" ..
qed

lemma inv_bfs_chegada:
  assumes i: "inv_bfs mapa linhas colunas partida destino s"
    and f: "fila s = (r, c, rota) # resto" and d: "(r, c) = destino"
  shows "pos_bfs mapa linhas colunas partida destino
           (chegada rota (registrar destino (r, c) rota (s\<lparr>fila := resto\<rparr>)))"
  unfolding pos_bfs_def
proof (intro allI impI)
  fix q
  assume q: "caminho mapa linhas colunas q \<and> hd q = partida \<and> last q = destino"
  have menor: "length rota \<le> length (rota_de e)" if "e \<in> set (fila s)" for e
    using i f that by (auto simp: inv_bfs_def niveis_def)
  have "cobre s q" using i q by (simp add: inv_bfs_def)
  moreover have "destino \<in> celula ` set (fila s)"
    using f d by force
  ultimately obtain e where "e \<in> set (fila s)" "length (rota_de e) \<le> length q"
    using q by (auto simp: cobre_def intro: less_imp_le)
  then have "length rota \<le> length q"
    using menor [of e] by simp
  then show "\<exists>p. rota_ideal (chegada rota (registrar destino (r, c) rota (s\<lparr>fila := resto\<rparr>))) = Some p
               \<and> length p \<le> length q"
    by (simp add: chegada_campos)
qed

lemma busca_pos_bfs:
  assumes "transitavel mapa (length mapa) (length (mapa ! 0)) partida"
  shows "pos_bfs mapa (length mapa) (length (mapa ! 0)) partida destino (busca mapa partida destino)"
  unfolding busca_def
proof (rule laco_regra [where I = "inv_bfs mapa (length mapa) (length (mapa ! 0)) partida destino"])
  show "inv_bfs mapa (length mapa) (length (mapa ! 0)) partida destino (estado_inicial partida)"
    using assms by (rule inv_bfs_inicial)
next
  fix s r c rota resto
  assume "inv_bfs mapa (length mapa) (length (mapa ! 0)) partida destino s"
    "fila s = (r, c, rota) # resto" "(r, c) \<noteq> destino"
  then show "inv_bfs mapa (length mapa) (length (mapa ! 0)) partida destino
               (expandir mapa (length mapa) (length (mapa ! 0)) r c rota direcoes
                  (registrar destino (r, c) rota (s\<lparr>fila := resto\<rparr>)))"
    by (rule inv_bfs_passo)
next
  fix s
  assume "inv_bfs mapa (length mapa) (length (mapa ! 0)) partida destino s" "fila s = []"
  then show "pos_bfs mapa (length mapa) (length (mapa ! 0)) partida destino s"
    by (rule inv_bfs_vazia)
next
  fix s r c rota resto
  assume "inv_bfs mapa (length mapa) (length (mapa ! 0)) partida destino s"
    "fila s = (r, c, rota) # resto" "(r, c) = destino"
  then show "pos_bfs mapa (length mapa) (length (mapa ! 0)) partida destino
               (chegada rota (registrar destino (r, c) rota (s\<lparr>fila := resto\<rparr>)))"
    by (rule inv_bfs_chegada)
qed

text \<open>
  C1. On a grid (non-empty, rectangular) whose start is the last \<open>E\<close> and whose
  destination is the last \<open>S\<close> (the only ones, when there is one of each), if some
  path over cells that are not \<open>#\<close> leads from the start to the destination, then
  \<open>encontrar_melhor_rota\<close> returns a route that is such a path, and the number of
  its edges is the distance: the least number of edges of any such path.
\<close>

theorem rota_ideal_otima:
  assumes g: "grade_retangular mapa"
    and e: "ultima_ocorrencia mapa (CHR ''E'') partida"
    and s: "ultima_ocorrencia mapa (CHR ''S'') destino"
    and a: "\<exists>q. liga mapa partida destino q"
  shows "\<exists>p desc snaps.
           encontrar_melhor_rota mapa = Inr (Some p, desc, mapa, snaps)
           \<and> liga mapa partida destino p
           \<and> length p = Suc (distancia mapa partida destino)"
proof -
  let ?L = "length mapa" and ?C = "length (mapa ! 0)"
  let ?s = "busca mapa partida destino"
  have l: "localizar mapa = Inr (Some partida, Some destino)"
    using g e s by (rule localizar_ultimas)
  have t: "transitavel mapa ?L ?C partida"
    using l by (rule transitavel_partida)
  have pb: "pos_bfs mapa ?L ?C partida destino ?s"
    using t by (rule busca_pos_bfs)
  have pr: "pos_rotas mapa ?L ?C partida destino ?s"
    using t by (rule busca_pos_rotas)
  obtain q0 where q0: "liga mapa partida destino q0" using a by blast
  then obtain p where p: "rota_ideal ?s = Some p"
    using pb by (auto simp: pos_bfs_def liga_def)
  have lp: "liga mapa partida destino p"
    using pr p by (simp add: pos_rotas_def liga_def)
  have menor: "length p \<le> length q" if "liga mapa partida destino q" for q
    using pb p that by (auto simp: pos_bfs_def liga_def)
  have pne: "p \<noteq> []" using lp by (simp add: liga_def caminho_def)
  have "(LEAST n. \<exists>q. liga mapa partida destino q \<and> length q = Suc n) = length p - 1"
  proof (rule Least_equality)
    show "\<exists>q. liga mapa partida destino q \<and> length q = Suc (length p - 1)"
      using lp pne by (intro exI [of _ p]) simp
  next
    fix n assume "\<exists>q. liga mapa partida destino q \<and> length q = Suc n"
    then obtain q where "liga mapa partida destino q" "length q = Suc n" by blast
    then show "length p - 1 \<le> n" using menor [of q] by simp
  qed
  then have "length p = Suc (distancia mapa partida destino)"
    using pne by (simp add: distancia_def)
  moreover have "encontrar_melhor_rota mapa =
      Inr (Some p, filtrar_descartadas (Some p) (todos_segmentos_explorados ?s), mapa,
           exploration_snapshots ?s)"
    using l p by (simp add: encontrar_melhor_rota_def Let_def)
  ultimately show ?thesis
    using lp by blast
qed

theorem rota_ideal_otima_witness:
  "grade_retangular grade_exemplo
   \<and> ultima_ocorrencia grade_exemplo (CHR ''E'') (0, 0)
   \<and> ultima_ocorrencia grade_exemplo (CHR ''S'') (2, 2)
   \<and> liga grade_exemplo (0, 0) (2, 2) [(0, 0), (1, 0), (2, 0), (2, 1), (2, 2)]
   \<and> distancia grade_exemplo (0, 0) (2, 2) = 4"
proof -
  have g: "grade_retangular grade_exemplo"
    by (simp add: grade_retangular_def grade_exemplo_def)
  have e: "ultima_ocorrencia grade_exemplo (CHR ''E'') (0, 0)"
    by code_simp
  have s: "ultima_ocorrencia grade_exemplo (CHR ''S'') (2, 2)"
    by code_simp
  have q: "liga grade_exemplo (0, 0) (2, 2) [(0, 0), (1, 0), (2, 0), (2, 1), (2, 2)]"
    by code_simp
  then have a: "\<exists>q. liga grade_exemplo (0, 0) (2, 2) q" ..
  have r: "encontrar_melhor_rota grade_exemplo =
     Inr (Some [(0, 0), (1, 0), (2, 0), (2, 1), (2, 2)],
          [[(0, 0), (0, 1)]],
          grade_exemplo,
          [{(0, 0)}, {(0, 0), (1, 0), (0, 1), (2, 0), (2, 1), (2, 2)}])"
    by code_simp
  have "distancia grade_exemplo (0, 0) (2, 2) = 4"
    using rota_ideal_otima [OF g e s a] r by auto
  then show ?thesis
    using g e s q by simp
qed

section \<open>The layers of the final matrix\<close>

lemma forma_atribuir:
  "forma linhas colunas M \<Longrightarrow> forma linhas colunas (atribuir M r c v)"
  by (cases "r < length M") (auto simp: forma_def atribuir_def nth_list_update)

lemma nth_atribuir:
  "forma linhas colunas M \<Longrightarrow> r < linhas \<Longrightarrow> c < colunas \<Longrightarrow> i < linhas \<Longrightarrow> j < colunas \<Longrightarrow>
   atribuir M r c v ! i ! j = (if i = r \<and> j = c then v else M ! i ! j)"
  by (auto simp: forma_def atribuir_def nth_list_update)

lemma classificar_colunas_Cons:
  "c < length (mapa ! r) \<Longrightarrow>
   classificar_colunas mapa r (c # cs) M
     = classificar_colunas mapa r cs (atribuir M r c (classe_base (mapa ! r ! c)))"
  by (simp add: classe_base_def)

lemma classificar_colunas_forma:
  assumes "forma linhas colunas M" "r < linhas" "\<forall>c \<in> set cs. c < colunas \<and> c < length (mapa ! r)"
  shows "\<exists>M'. classificar_colunas mapa r cs M = Inr M' \<and> forma linhas colunas M' \<and>
           (\<forall>i < linhas. \<forall>j < colunas.
              M' ! i ! j = (if i = r \<and> j \<in> set cs then classe_base (mapa ! r ! j) else M ! i ! j))"
  using assms
proof (induction cs arbitrary: M)
  case Nil
  then show ?case by simp
next
  case (Cons c cs)
  let ?M1 = "atribuir M r c (classe_base (mapa ! r ! c))"
  have c: "c < colunas" "c < length (mapa ! r)"
    and cs: "\<forall>c \<in> set cs. c < colunas \<and> c < length (mapa ! r)"
    using Cons.prems(3) by simp_all
  have f1: "forma linhas colunas ?M1"
    using Cons.prems(1) by (rule forma_atribuir)
  from Cons.IH [OF f1 Cons.prems(2) cs] obtain M' where
    r: "classificar_colunas mapa r cs ?M1 = Inr M'" and f: "forma linhas colunas M'" and
    n: "\<forall>i < linhas. \<forall>j < colunas.
          M' ! i ! j = (if i = r \<and> j \<in> set cs then classe_base (mapa ! r ! j) else ?M1 ! i ! j)"
    by blast
  have "\<forall>i < linhas. \<forall>j < colunas.
          M' ! i ! j = (if i = r \<and> j \<in> set (c # cs) then classe_base (mapa ! r ! j) else M ! i ! j)"
    using n nth_atribuir [OF Cons.prems(1) Cons.prems(2) c(1)] by auto
  then show ?case
    using r f c(2) by (simp only: classificar_colunas_Cons) blast
qed

lemma classificar_linhas_forma:
  assumes "forma linhas colunas M" "\<forall>r \<in> set rs. r < linhas \<and> colunas \<le> length (mapa ! r)"
  shows "\<exists>M'. classificar_linhas mapa colunas rs M = Inr M' \<and> forma linhas colunas M' \<and>
           (\<forall>i < linhas. \<forall>j < colunas.
              M' ! i ! j = (if i \<in> set rs then classe_base (mapa ! i ! j) else M ! i ! j))"
  using assms
proof (induction rs arbitrary: M)
  case Nil
  then show ?case by simp
next
  case (Cons r rs)
  have r: "r < linhas" "colunas \<le> length (mapa ! r)"
    and rs: "\<forall>r \<in> set rs. r < linhas \<and> colunas \<le> length (mapa ! r)"
    using Cons.prems(2) by simp_all
  have "\<forall>c \<in> set [0..<colunas]. c < colunas \<and> c < length (mapa ! r)"
    using r(2) by simp
  from classificar_colunas_forma [OF Cons.prems(1) r(1) this] obtain M1 where
    c1: "classificar_colunas mapa r [0..<colunas] M = Inr M1" and f1: "forma linhas colunas M1" and
    n1: "\<forall>i < linhas. \<forall>j < colunas.
          M1 ! i ! j = (if i = r \<and> j \<in> set [0..<colunas] then classe_base (mapa ! r ! j) else M ! i ! j)"
    by blast
  from Cons.IH [OF f1 rs] obtain M' where
    c2: "classificar_linhas mapa colunas rs M1 = Inr M'" and f2: "forma linhas colunas M'" and
    n2: "\<forall>i < linhas. \<forall>j < colunas.
          M' ! i ! j = (if i \<in> set rs then classe_base (mapa ! i ! j) else M1 ! i ! j)"
    by blast
  have "\<forall>i < linhas. \<forall>j < colunas.
          M' ! i ! j = (if i \<in> set (r # rs) then classe_base (mapa ! i ! j) else M ! i ! j)"
    using n1 n2 by auto
  then show ?case
    using c1 c2 f2 by auto
qed

lemma dentro_nat:
  assumes "dentro linhas colunas (r, c)"
  shows "nat r < linhas" "nat c < colunas" "0 \<le> r" "r < int linhas" "0 \<le> c" "c < int colunas"
  using assms unfolding dentro_def by simp_all linarith+

lemma np_indice_dentro: "0 \<le> i \<Longrightarrow> i < int n \<Longrightarrow> np_indice n i = Inr (nat i)"
  by (simp add: np_indice_def)

lemma pintar_visitadas_Cons:
  assumes "forma linhas colunas M" "dentro linhas colunas (r, c)"
  shows "pintar_visitadas ((r, c) # resto) M =
           (if M ! nat r ! nat c = 0 then pintar_visitadas resto (atribuir M (nat r) (nat c) 5)
            else pintar_visitadas resto M)"
proof -
  have "np_indice (length M) r = Inr (nat r)"
    using assms(1) dentro_nat [OF assms(2)] by (simp add: np_indice_dentro forma_def)
  moreover have "length (M ! nat r) = colunas"
    using assms(1) dentro_nat(1) [OF assms(2)] by (simp add: forma_def)
  then have "np_indice (length (M ! nat r)) c = Inr (nat c)"
    using dentro_nat [OF assms(2)] by (simp add: np_indice_dentro)
  ultimately show ?thesis by simp
qed

lemma pintar_rota_Cons:
  assumes "forma linhas colunas M" "dentro linhas colunas (r, c)"
  shows "pintar_rota ((r, c) # resto) M =
           (if M ! nat r ! nat c = 0 \<or> M ! nat r ! nat c = 5
            then pintar_rota resto (atribuir M (nat r) (nat c) 4)
            else pintar_rota resto M)"
proof -
  have "np_indice (length M) r = Inr (nat r)"
    using assms(1) dentro_nat [OF assms(2)] by (simp add: np_indice_dentro forma_def)
  moreover have "length (M ! nat r) = colunas"
    using assms(1) dentro_nat(1) [OF assms(2)] by (simp add: forma_def)
  then have "np_indice (length (M ! nat r)) c = Inr (nat c)"
    using dentro_nat [OF assms(2)] by (simp add: np_indice_dentro)
  ultimately show ?thesis by simp
qed

lemma coord_nat: "dentro linhas colunas (r, c) \<Longrightarrow> (int i, int j) = (r, c) \<longleftrightarrow> i = nat r \<and> j = nat c"
  unfolding dentro_def by auto

lemma pintar_visitadas_forma:
  assumes "forma linhas colunas M" "\<forall>p \<in> set cells. dentro linhas colunas p"
  shows "\<exists>M'. pintar_visitadas cells M = Inr M' \<and> forma linhas colunas M' \<and>
           (\<forall>i < linhas. \<forall>j < colunas.
              M' ! i ! j = (if M ! i ! j = 0 \<and> (int i, int j) \<in> set cells then 5 else M ! i ! j))"
  using assms
proof (induction cells arbitrary: M)
  case Nil
  then show ?case by simp
next
  case (Cons p cells)
  obtain r c where p: "p = (r, c)" by (cases p)
  have d: "dentro linhas colunas (r, c)" and ds: "\<forall>p \<in> set cells. dentro linhas colunas p"
    using Cons.prems(2) p by simp_all
  have rn: "nat r < linhas" and cn: "nat c < colunas"
    using dentro_nat [OF d] by simp_all
  show ?case
  proof (cases "M ! nat r ! nat c = 0")
    case True
    let ?M1 = "atribuir M (nat r) (nat c) 5"
    have f1: "forma linhas colunas ?M1" using Cons.prems(1) by (rule forma_atribuir)
    from Cons.IH [OF f1 ds] obtain M' where
      e: "pintar_visitadas cells ?M1 = Inr M'" and f: "forma linhas colunas M'" and
      n: "\<forall>i < linhas. \<forall>j < colunas.
            M' ! i ! j = (if ?M1 ! i ! j = 0 \<and> (int i, int j) \<in> set cells then 5 else ?M1 ! i ! j)"
      by blast
    have "\<forall>i < linhas. \<forall>j < colunas.
            M' ! i ! j = (if M ! i ! j = 0 \<and> (int i, int j) \<in> set (p # cells) then 5 else M ! i ! j)"
      using n nth_atribuir [OF Cons.prems(1) rn cn] True coord_nat [OF d]
      by (auto simp: p)
    moreover have "pintar_visitadas (p # cells) M = Inr M'"
      unfolding p using e True by (subst pintar_visitadas_Cons [OF Cons.prems(1) d]) simp
    ultimately show ?thesis using f by blast
  next
    case False
    from Cons.IH [OF Cons.prems(1) ds] obtain M' where
      e: "pintar_visitadas cells M = Inr M'" and f: "forma linhas colunas M'" and
      n: "\<forall>i < linhas. \<forall>j < colunas.
            M' ! i ! j = (if M ! i ! j = 0 \<and> (int i, int j) \<in> set cells then 5 else M ! i ! j)"
      by blast
    have "\<forall>i < linhas. \<forall>j < colunas.
            M' ! i ! j = (if M ! i ! j = 0 \<and> (int i, int j) \<in> set (p # cells) then 5 else M ! i ! j)"
      using n False coord_nat [OF d] by (auto simp: p)
    moreover have "pintar_visitadas (p # cells) M = Inr M'"
      unfolding p using e False by (subst pintar_visitadas_Cons [OF Cons.prems(1) d]) simp
    ultimately show ?thesis using f by blast
  qed
qed

lemma pintar_rota_forma:
  assumes "forma linhas colunas M" "\<forall>p \<in> set rota. dentro linhas colunas p"
  shows "\<exists>M'. pintar_rota rota M = Inr M' \<and> forma linhas colunas M' \<and>
           (\<forall>i < linhas. \<forall>j < colunas.
              M' ! i ! j = (if (M ! i ! j = 0 \<or> M ! i ! j = 5) \<and> (int i, int j) \<in> set rota
                            then 4 else M ! i ! j))"
  using assms
proof (induction rota arbitrary: M)
  case Nil
  then show ?case by simp
next
  case (Cons p rota)
  obtain r c where p: "p = (r, c)" by (cases p)
  have d: "dentro linhas colunas (r, c)" and ds: "\<forall>p \<in> set rota. dentro linhas colunas p"
    using Cons.prems(2) p by simp_all
  have rn: "nat r < linhas" and cn: "nat c < colunas"
    using dentro_nat [OF d] by simp_all
  show ?case
  proof (cases "M ! nat r ! nat c = 0 \<or> M ! nat r ! nat c = 5")
    case True
    let ?M1 = "atribuir M (nat r) (nat c) 4"
    have f1: "forma linhas colunas ?M1" using Cons.prems(1) by (rule forma_atribuir)
    from Cons.IH [OF f1 ds] obtain M' where
      e: "pintar_rota rota ?M1 = Inr M'" and f: "forma linhas colunas M'" and
      n: "\<forall>i < linhas. \<forall>j < colunas.
            M' ! i ! j = (if (?M1 ! i ! j = 0 \<or> ?M1 ! i ! j = 5) \<and> (int i, int j) \<in> set rota
                          then 4 else ?M1 ! i ! j)"
      by blast
    have "\<forall>i < linhas. \<forall>j < colunas.
            M' ! i ! j = (if (M ! i ! j = 0 \<or> M ! i ! j = 5) \<and> (int i, int j) \<in> set (p # rota)
                          then 4 else M ! i ! j)"
      using n nth_atribuir [OF Cons.prems(1) rn cn] True coord_nat [OF d]
      by (auto simp: p)
    moreover have "pintar_rota (p # rota) M = Inr M'"
      unfolding p using e True by (subst pintar_rota_Cons [OF Cons.prems(1) d]) simp
    ultimately show ?thesis using f by blast
  next
    case False
    from Cons.IH [OF Cons.prems(1) ds] obtain M' where
      e: "pintar_rota rota M = Inr M'" and f: "forma linhas colunas M'" and
      n: "\<forall>i < linhas. \<forall>j < colunas.
            M' ! i ! j = (if (M ! i ! j = 0 \<or> M ! i ! j = 5) \<and> (int i, int j) \<in> set rota
                          then 4 else M ! i ! j)"
      by blast
    have "\<forall>i < linhas. \<forall>j < colunas.
            M' ! i ! j = (if (M ! i ! j = 0 \<or> M ! i ! j = 5) \<and> (int i, int j) \<in> set (p # rota)
                          then 4 else M ! i ! j)"
      using n False coord_nat [OF d] by (auto simp: p)
    moreover have "pintar_rota (p # rota) M = Inr M'"
      unfolding p using e False by (subst pintar_rota_Cons [OF Cons.prems(1) d]) simp
    ultimately show ?thesis using f by blast
  qed
qed

lemma plotar_mapa_final_naovazia:
  assumes "mapa \<noteq> []"
  shows "plotar_mapa_final mapa ri rd fv =
     (case classificar_linhas mapa (length (mapa ! 0)) [0..<length mapa]
             (replicate (length mapa) (replicate (length (mapa ! 0)) 0)) of
        Inl e \<Rightarrow> Inl e
      | Inr M1 \<Rightarrow>
          (case pintar_visitadas (celulas_de fv) M1 of
             Inl e \<Rightarrow> Inl e
           | Inr M2 \<Rightarrow> pintar_rota (celulas_de ri) M2))"
proof -
  obtain l ls where m: "mapa = l # ls" using assms by (cases mapa) simp_all
  have v: "(case fv of None \<Rightarrow> Inr M | Some cells \<Rightarrow> if cells \<noteq> [] then pintar_visitadas cells M else Inr M)
             = pintar_visitadas (celulas_de fv) M" for M
    by (cases fv) (auto simp: celulas_de_def)
  have r: "(case ri of None \<Rightarrow> Inr M | Some rota \<Rightarrow> if rota \<noteq> [] then pintar_rota rota M else Inr M)
             = pintar_rota (celulas_de ri) M" for M
    by (cases ri) (auto simp: celulas_de_def)
  show ?thesis
    unfolding plotar_mapa_final_def Let_def v r m by simp
qed

text \<open>
  C8. With the route and the visited cells inside the grid, \<open>plotar_mapa_final\<close>
  builds a matrix of the grid's shape in which a cell marked \<open>#\<close>, \<open>E\<close> or
  \<open>S\<close> keeps the class 1, 2 or 3 of the first pass whatever is painted later; any
  other cell is 4 when it is on the route, also when it is visited; 5 when it is visited
  and not on the route; 0 otherwise. So 5 is only ever painted over 0, and 4 over 0 or 5.
\<close>

theorem plotar_mapa_final_camadas:
  assumes g: "grade_retangular mapa"
    and v: "list_all (dentro (length mapa) (length (mapa ! 0))) (celulas_de final_visited_cells)"
    and r: "list_all (dentro (length mapa) (length (mapa ! 0))) (celulas_de rota_ideal')"
  shows "\<exists>M. plotar_mapa_final mapa rota_ideal' rotas_descartadas final_visited_cells = Inr M
           \<and> forma (length mapa) (length (mapa ! 0)) M
           \<and> (\<forall>i < length mapa. \<forall>j < length (mapa ! 0).
                 M ! i ! j = classe_final mapa (set (celulas_de rota_ideal'))
                               (set (celulas_de final_visited_cells)) i j)"
proof -
  let ?L = "length mapa" and ?C = "length (mapa ! 0)"
  let ?M0 = "replicate ?L (replicate ?C (0::nat))"
  have f0: "forma ?L ?C ?M0" by (simp add: forma_def)
  have rows: "\<forall>r \<in> set [0..<?L]. r < ?L \<and> ?C \<le> length (mapa ! r)"
    using grade_retangular_linhas [OF g] by (metis atLeastLessThan_iff order_refl set_upt)
  from classificar_linhas_forma [OF f0 rows] obtain M1 where
    e1: "classificar_linhas mapa ?C [0..<?L] ?M0 = Inr M1" and f1: "forma ?L ?C M1" and
    n1: "\<forall>i < ?L. \<forall>j < ?C.
           M1 ! i ! j = (if i \<in> set [0..<?L] then classe_base (mapa ! i ! j) else ?M0 ! i ! j)"
    by blast
  have v': "\<forall>p \<in> set (celulas_de final_visited_cells). dentro ?L ?C p"
    using v by (simp add: list_all_iff)
  from pintar_visitadas_forma [OF f1 v'] obtain M2 where
    e2: "pintar_visitadas (celulas_de final_visited_cells) M1 = Inr M2" and f2: "forma ?L ?C M2" and
    n2: "\<forall>i < ?L. \<forall>j < ?C.
           M2 ! i ! j = (if M1 ! i ! j = 0 \<and> (int i, int j) \<in> set (celulas_de final_visited_cells)
                         then 5 else M1 ! i ! j)"
    by blast
  have r': "\<forall>p \<in> set (celulas_de rota_ideal'). dentro ?L ?C p"
    using r by (simp add: list_all_iff)
  from pintar_rota_forma [OF f2 r'] obtain M3 where
    e3: "pintar_rota (celulas_de rota_ideal') M2 = Inr M3" and f3: "forma ?L ?C M3" and
    n3: "\<forall>i < ?L. \<forall>j < ?C.
           M3 ! i ! j = (if (M2 ! i ! j = 0 \<or> M2 ! i ! j = 5) \<and> (int i, int j) \<in> set (celulas_de rota_ideal')
                         then 4 else M2 ! i ! j)"
    by blast
  have "M3 ! i ! j = classe_final mapa (set (celulas_de rota_ideal'))
                       (set (celulas_de final_visited_cells)) i j"
    if i: "i < ?L" and j: "j < ?C" for i j
  proof -
    have b: "M1 ! i ! j = classe_base (mapa ! i ! j)" using n1 i j by simp
    show ?thesis
      using n2 n3 i j by (simp add: b classe_base_def classe_final_def)
  qed
  moreover have "plotar_mapa_final mapa rota_ideal' rotas_descartadas final_visited_cells = Inr M3"
    using e1 e2 e3 by (simp add: plotar_mapa_final_naovazia [OF grade_retangular_naovazia [OF g]])
  ultimately show ?thesis
    using f3 by blast
qed

theorem plotar_mapa_final_camadas_witness:
  "grade_retangular grade_exemplo
   \<and> plotar_mapa_final grade_exemplo (Some [(0, 0), (1, 0), (2, 0), (2, 1), (2, 2)])
        (Some [[(0, 0), (0, 1)]])
        (Some [(0, 0), (1, 0), (0, 1), (2, 0), (2, 1), (2, 2)])
      = Inr [[2, 5, 1], [4, 1, 0], [4, 4, 3]]
   \<and> classe_final grade_exemplo (set [(0, 0), (1, 0), (2, 0), (2, 1), (2, 2)])
        (set [(0, 0), (1, 0), (0, 1), (2, 0), (2, 1), (2, 2)]) 0 1 = 5
   \<and> classe_final grade_exemplo (set [(0, 0), (1, 0), (2, 0), (2, 1), (2, 2)])
        (set [(0, 0), (1, 0), (0, 1), (2, 0), (2, 1), (2, 2)]) 2 1 = 4
   \<and> classe_final grade_exemplo (set [(0, 0), (1, 0), (2, 0), (2, 1), (2, 2)])
        (set [(0, 0), (1, 0), (0, 1), (2, 0), (2, 1), (2, 2)]) 0 0 = 2"
proof -
  let ?ri = "Some [(0, 0), (1, 0), (2, 0), (2, 1), (2, 2)] :: rota option"
  let ?fv = "Some [(0, 0), (1, 0), (0, 1), (2, 0), (2, 1), (2, 2)] :: coord list option"
  have g: "grade_retangular grade_exemplo"
    by (simp add: grade_retangular_def grade_exemplo_def)
  have v: "list_all (dentro (length grade_exemplo) (length (grade_exemplo ! 0))) (celulas_de ?fv)"
    by code_simp
  have r: "list_all (dentro (length grade_exemplo) (length (grade_exemplo ! 0))) (celulas_de ?ri)"
    by code_simp
  have e: "plotar_mapa_final grade_exemplo ?ri (Some [[(0, 0), (0, 1)]]) ?fv
             = Inr [[2, 5, 1], [4, 1, 0], [4, 4, 3]]"
    by code_simp
  have c: "classe_final grade_exemplo (set [(0, 0), (1, 0), (2, 0), (2, 1), (2, 2)])
        (set [(0, 0), (1, 0), (0, 1), (2, 0), (2, 1), (2, 2)]) 0 1 = 5"
    "classe_final grade_exemplo (set [(0, 0), (1, 0), (2, 0), (2, 1), (2, 2)])
        (set [(0, 0), (1, 0), (0, 1), (2, 0), (2, 1), (2, 2)]) 2 1 = 4"
    "classe_final grade_exemplo (set [(0, 0), (1, 0), (2, 0), (2, 1), (2, 2)])
        (set [(0, 0), (1, 0), (0, 1), (2, 0), (2, 1), (2, 2)]) 0 0 = 2"
    by code_simp+
  show ?thesis
    using plotar_mapa_final_camadas [OF g v r, of "Some [[(0, 0), (0, 1)]]"] g e c by simp
qed

section \<open>Two concrete runs\<close>

text \<open>
  C7. On the 3 by 3 grid of the specification the search returns the route
  (0,0), (1,0), (2,0), (2,1), (2,2), which has five cells; the theorem gives the whole
  result tuple.
\<close>

theorem grade_exemplo_rota:
  "encontrar_melhor_rota grade_exemplo =
     Inr (Some [(0, 0), (1, 0), (2, 0), (2, 1), (2, 2)],
          [[(0, 0), (0, 1)]],
          grade_exemplo,
          [{(0, 0)}, {(0, 0), (1, 0), (0, 1), (2, 0), (2, 1), (2, 2)}])
   \<and> length [(0, 0), (1, 0), (2, 0), (2, 1), (2, 2 :: int) :: coord] = 5"
  by code_simp

text \<open>
  C2. The list \<open>direcoes\<close> holds row-1, row+1, column-1, column+1: west comes before
  east. On a ring around one blocked cell, with the start above and the destination
  below it, both ways round have five cells. The search returns the one through
  column 0, because the first expansion enqueues (0,0) before (0,2); with the order
  row-1, row+1, column+1, column-1 the same expansion enqueues (0,2) first.
\<close>

theorem grade_anel_oeste_primeiro:
  "encontrar_melhor_rota grade_anel =
     Inr (Some [(0, 1), (0, 0), (1, 0), (2, 0), (2, 1)],
          [[(0, 1), (0, 2)], [(0, 1), (0, 2), (1, 2)], [(0, 1), (0, 2), (1, 2), (2, 2)]],
          grade_anel,
          [{(0, 1)},
           {(0, 1), (0, 0), (0, 2), (1, 0), (1, 2), (2, 0), (2, 2)},
           {(0, 1), (0, 0), (0, 2), (1, 0), (1, 2), (2, 0), (2, 2), (2, 1)}])
   \<and> fila (expandir grade_anel 3 3 0 1 [(0, 1)] direcoes
             ((estado_inicial (0, 1))\<lparr>fila := []\<rparr>))
       = [(0, 0, [(0, 1), (0, 0)]), (0, 2, [(0, 1), (0, 2)])]
   \<and> fila (expandir grade_anel 3 3 0 1 [(0, 1)] [(-1, 0), (1, 0), (0, 1), (0, -1)]
             ((estado_inicial (0, 1))\<lparr>fila := []\<rparr>))
       = [(0, 2, [(0, 1), (0, 2)]), (0, 0, [(0, 1), (0, 0)])]"
  by code_simp

end
